theory Spec2Isabelle
  imports Main
begin

section \<open>Strings\<close>

text \<open>
  A JavaScript string is a sequence of UTF-16 code units. The model uses \<^typ>\<open>string\<close>,
  whose characters are the code units 0 to 255, so it covers the strings whose code
  units lie in that range. In that range the white space of \<open>String.prototype.trim\<close>
  and of the regular expression class \<open>\s\<close> is TAB, LF, VT, FF, CR, SPACE and NBSP, and
  the line terminators, which the regular expression \<open>.\<close> does not match, are LF and CR.
\<close>

definition LF :: char where "LF = CHR 0x0A"
definition CR :: char where "CR = CHR 0x0D"
definition DQUOTE :: char where "DQUOTE = CHR 0x22"
definition SQUOTE :: char where "SQUOTE = CHR 0x27"
definition BACKSLASH :: char where "BACKSLASH = CHR 0x5C"
definition HASH :: char where "HASH = CHR 0x23"

definition is_ws :: "char \<Rightarrow> bool" where
  "is_ws c = (c \<in> set [CHR 0x09, CHR 0x0A, CHR 0x0B, CHR 0x0C, CHR 0x0D, CHR 0x20, CHR 0xA0])"

definition is_lt :: "char \<Rightarrow> bool" where
  "is_lt c = (c = LF \<or> c = CR)"

definition is_upper :: "char \<Rightarrow> bool" where
  "is_upper c = (c \<in> set ''ABCDEFGHIJKLMNOPQRSTUVWXYZ'')"

definition is_lower :: "char \<Rightarrow> bool" where
  "is_lower c = (c \<in> set ''abcdefghijklmnopqrstuvwxyz'')"

definition is_digit :: "char \<Rightarrow> bool" where
  "is_digit c = (c \<in> set ''0123456789'')"

text \<open>The class \<open>[A-Za-z_]\<close> and the class \<open>[A-Za-z0-9_]\<close>.\<close>

definition is_ident_start :: "char \<Rightarrow> bool" where
  "is_ident_start c = (is_upper c \<or> is_lower c \<or> c = CHR ''_'')"

definition is_ident_char :: "char \<Rightarrow> bool" where
  "is_ident_char c = (is_upper c \<or> is_lower c \<or> is_digit c \<or> c = CHR ''_'')"

text \<open>\<open>s.trim()\<close>\<close>

definition trim :: "string \<Rightarrow> string" where
  "trim s = rev (dropWhile is_ws (rev (dropWhile is_ws s)))"

text \<open>\<open>s.startsWith(p)\<close> and \<open>s.endsWith(p)\<close>\<close>

definition startsWith :: "string \<Rightarrow> string \<Rightarrow> bool" where
  "startsWith p s = (take (length p) s = p)"

definition endsWith :: "string \<Rightarrow> string \<Rightarrow> bool" where
  "endsWith p s = (length p \<le> length s \<and> drop (length s - length p) s = p)"

text \<open>\<open>parts.join(sep)\<close>\<close>

fun join :: "string \<Rightarrow> string list \<Rightarrow> string" where
  "join sep [] = []"
| "join sep [x] = x"
| "join sep (x # y # ys) = x @ sep @ join sep (y # ys)"

text \<open>
  \<open>s.replace(/ab/g, r)\<close> for a pattern of two literal characters: the occurrences are
  found from left to right and do not overlap.
\<close>

fun replace2 :: "char \<Rightarrow> char \<Rightarrow> string \<Rightarrow> string \<Rightarrow> string" where
  "replace2 a b r (x # y # zs) =
     (if x = a \<and> y = b then r @ replace2 a b r zs else x # replace2 a b r (y # zs))"
| "replace2 a b r xs = xs"

section \<open>Data model (types.ts)\<close>

record EnvVariable =
  key :: string
  val :: string
  lineNumber :: nat
  isQuoted :: bool
  hasComment :: "string option"

record ParseError =
  pe_lineNumber :: nat
  pe_message :: string
  pe_line :: string

record ParsedEnvFile =
  variables :: "EnvVariable list"
  comments :: "string list"
  emptyLines :: "nat list"
  parseErrors :: "ParseError list"

section \<open>Line parser (core/parser.ts)\<close>

text \<open>\<open>content.split(/\r?\n/)\<close>: a separator is LF, or CR immediately followed by LF.\<close>

fun addChar :: "char \<Rightarrow> string list \<Rightarrow> string list" where
  "addChar c [] = [[c]]"
| "addChar c (l # ls) = (c # l) # ls"

fun splitLines :: "string \<Rightarrow> string list" where
  "splitLines [] = [[]]"
| "splitLines [c] = (if c = LF then [[], []] else [[c]])"
| "splitLines (c # d # cs) =
     (if c = LF then [] # splitLines (d # cs)
      else if c = CR \<and> d = LF then [] # splitLines cs
      else addChar c (splitLines (d # cs)))"

text \<open>
  \<open>trimmedLine.match(/^([A-Za-z_][A-Za-z0-9_]*)\s*=\s*(.*)$/)\<close>, giving the two groups.
  The first group is the longest run of identifier characters, which must start with a
  letter or an underscore; both \<open>\s*\<close> take all the white space they find (a shorter
  run would have to be followed by \<open>=\<close>, or would leave that white space to \<open>.*\<close>,
  which then still has to reach the end of the string); \<open>(.*)$\<close> takes the rest, which
  must not hold a line terminator.
\<close>

definition assignmentMatch :: "string \<Rightarrow> (string \<times> string) option" where
  "assignmentMatch s =
     (case s of
        [] \<Rightarrow> None
      | c # cs \<Rightarrow>
          if \<not> is_ident_start c then None
          else
            (let k = c # takeWhile is_ident_char cs in
             case dropWhile is_ws (dropWhile is_ident_char cs) of
               [] \<Rightarrow> None
             | e # r \<Rightarrow>
                 if e \<noteq> CHR ''='' then None
                 else
                   (let v = dropWhile is_ws r in
                    if list_ex is_lt v then None else Some (k, v))))"

text \<open>
  The tail \<open>(\s*#.*)?$\<close> of the quoted pattern, tried on what follows a closing quote:
  the group matches when the white space is followed by \<open>#\<close> and no line terminator
  comes after it; without the group the rest must be empty.
\<close>

definition commentTail :: "string \<Rightarrow> bool" where
  "commentTail r =
     (case dropWhile is_ws r of
        [] \<Rightarrow> False
      | h # t \<Rightarrow> h = HASH \<and> \<not> list_ex is_lt t)"

text \<open>
  \<open>valueWithComment.match(/^(['"])(.*?)\1(\s*#.*)?$/)\<close> after the opening quote \<open>q\<close>:
  the lazy \<open>(.*?)\<close> grows one character at a time (never over a line terminator)
  until a quote \<open>q\<close> follows after which the tail matches. The result is the second
  group and the third group (absent when the tail is empty).
\<close>

fun quotedScan :: "char \<Rightarrow> string \<Rightarrow> string \<Rightarrow> (string \<times> string option) option" where
  "quotedScan q seen [] = None"
| "quotedScan q seen (c # cs) =
     (if c = q \<and> commentTail cs then Some (seen, Some cs)
      else if c = q \<and> cs = [] then Some (seen, None)
      else if is_lt c then None
      else quotedScan q (seen @ [c]) cs)"

definition quotedMatch :: "string \<Rightarrow> (char \<times> string \<times> string option) option" where
  "quotedMatch s =
     (case s of
        [] \<Rightarrow> None
      | q # cs \<Rightarrow>
          if q = SQUOTE \<or> q = DQUOTE
          then map_option (\<lambda>(quotedValue, commentPart). (q, quotedValue, commentPart))
                 (quotedScan q [] cs)
          else None)"

definition extractValueAndComment :: "string \<Rightarrow> string \<times> string option" where
  "extractValueAndComment valueWithComment =
     (case quotedMatch valueWithComment of
        Some (q, quotedValue, commentPart) \<Rightarrow>
          ([q] @ quotedValue @ [q], map_option (\<lambda>cp. trim (drop 1 (trim cp))) commentPart)
      | None \<Rightarrow>
          if HASH \<notin> set valueWithComment then (trim valueWithComment, None)
          else
            (trim (takeWhile (\<lambda>c. c \<noteq> HASH) valueWithComment),
             Some (trim (drop 1 (dropWhile (\<lambda>c. c \<noteq> HASH) valueWithComment)))))"

definition processQuotes :: "string \<Rightarrow> string \<times> bool" where
  "processQuotes v =
     (let trimmedValue = trim v in
      if startsWith [SQUOTE] trimmedValue \<and> endsWith [SQUOTE] trimmedValue
           \<and> length trimmedValue \<ge> 2
      then (butlast (tl trimmedValue), True)
      else if startsWith [DQUOTE] trimmedValue \<and> endsWith [DQUOTE] trimmedValue
           \<and> length trimmedValue \<ge> 2
      then
        (replace2 BACKSLASH DQUOTE [DQUOTE]
          (replace2 BACKSLASH BACKSLASH [BACKSLASH]
            (replace2 BACKSLASH (CHR ''t'') [CHR 0x09]
              (replace2 BACKSLASH (CHR ''r'') [CR]
                (replace2 BACKSLASH (CHR ''n'') [LF] (butlast (tl trimmedValue)))))),
         True)
      else (trimmedValue, False))"

text \<open>
  \<open>parseVariableLine\<close> returns an object with either \<open>error\<close> or \<open>variable\<close> set:
  \<open>Inl\<close> is the error, \<open>Inr\<close> the variable.
\<close>

definition formatError :: "nat \<Rightarrow> string \<Rightarrow> ParseError" where
  "formatError n trimmedLine =
     \<lparr>pe_lineNumber = n, pe_message = ''Invalid variable assignment format'',
      pe_line = trimmedLine\<rparr>"

definition parseVariableLine :: "string \<Rightarrow> nat \<Rightarrow> ParseError + EnvVariable" where
  "parseVariableLine line n =
     (let trimmedLine = trim line in
      case assignmentMatch trimmedLine of
        None \<Rightarrow> Inl (formatError n trimmedLine)
      | Some (k, valueWithComment) \<Rightarrow>
          if k = [] then Inl (formatError n trimmedLine)
          else
            (case extractValueAndComment valueWithComment of
               (v, comment) \<Rightarrow>
                 (case processQuotes v of
                    (cleanValue, quoted) \<Rightarrow>
                      Inr \<lparr>key = k, val = cleanValue, lineNumber = n,
                           isQuoted = quoted, hasComment = comment\<rparr>)))"

text \<open>
  The loop of \<open>parseContent\<close>: the four arrays are the state, \<open>n\<close> is \<open>lineNumber\<close>.
\<close>

fun parseLines :: "string list \<Rightarrow> nat \<Rightarrow> ParsedEnvFile \<Rightarrow> ParsedEnvFile" where
  "parseLines [] n acc = acc"
| "parseLines (line # rest) n acc =
     (let trimmedLine = trim line in
      if trimmedLine = [] then
        parseLines rest (Suc n) (acc\<lparr>emptyLines := emptyLines acc @ [n]\<rparr>)
      else if startsWith [HASH] trimmedLine then
        parseLines rest (Suc n) (acc\<lparr>comments := comments acc @ [trim (drop 1 trimmedLine)]\<rparr>)
      else
        (case parseVariableLine line n of
           Inl e \<Rightarrow> parseLines rest (Suc n) (acc\<lparr>parseErrors := parseErrors acc @ [e]\<rparr>)
         | Inr v \<Rightarrow> parseLines rest (Suc n) (acc\<lparr>variables := variables acc @ [v]\<rparr>)))"

definition parseContent :: "string \<Rightarrow> ParsedEnvFile" where
  "parseContent content =
     parseLines (splitLines content) 1
       \<lparr>variables = [], comments = [], emptyLines = [], parseErrors = []\<rparr>"

definition renderVariable :: "EnvVariable \<Rightarrow> string" where
  "renderVariable v =
     key v @ ''='' @ (if isQuoted v then [DQUOTE] @ val v @ [DQUOTE] else val v)
       @ (case hasComment v of
            None \<Rightarrow> []
          | Some c \<Rightarrow> if c = [] then [] else '' # '' @ c)"

definition stringify :: "EnvVariable list \<Rightarrow> string" where
  "stringify vs = join [LF] (map renderVariable vs)"

text \<open>
  The kind of a line, as the loop of \<open>parseContent\<close> decides it: every line has exactly
  one kind.
\<close>

datatype lineKind = Blank | Comment | Assignment | Malformed

definition lineKind :: "string \<Rightarrow> lineKind" where
  "lineKind l =
     (if trim l = [] then Blank
      else if startsWith [HASH] (trim l) then Comment
      else if assignmentMatch (trim l) = None then Malformed
      else Assignment)"

text \<open>
  The variable lists of the round-trip property: a key of the identifier grammar
  \<open>[A-Za-z_][A-Za-z0-9_]*\<close>, and a value without quote characters, \<open>#\<close>, backslash or
  newline and without leading or trailing white space.
\<close>

definition isIdentifier :: "string \<Rightarrow> bool" where
  "isIdentifier k = (case k of [] \<Rightarrow> False | c # cs \<Rightarrow> is_ident_start c \<and> list_all is_ident_char cs)"

definition simpleValue :: "string \<Rightarrow> bool" where
  "simpleValue v =
     (SQUOTE \<notin> set v \<and> DQUOTE \<notin> set v \<and> HASH \<notin> set v \<and> BACKSLASH \<notin> set v
      \<and> LF \<notin> set v \<and> trim v = v)"

definition renderable :: "EnvVariable \<Rightarrow> bool" where
  "renderable v =
     (isIdentifier (key v) \<and> hasComment v = None \<and> simpleValue (val v) \<and> CR \<notin> set (val v))"

text \<open>A variable whose value holds a carriage return between two letters.\<close>

definition crVariable :: EnvVariable where
  "crVariable = \<lparr>key = ''K'', val = [CHR ''a'', CR, CHR ''b''], lineNumber = 1,
                  isQuoted = False, hasComment = None\<rparr>"

section \<open>More string operations\<close>

text \<open>
  \<open>s.toLowerCase()\<close> on code units below 256: the letters A to Z and the Latin-1
  capitals U+00C0 to U+00DE (without the multiplication sign U+00D7) move up by 32.
\<close>

definition lowerChar :: "char \<Rightarrow> char" where
  "lowerChar c =
     (let n = (of_char c :: nat) in
      if (65 \<le> n \<and> n \<le> 90) \<or> (192 \<le> n \<and> n \<le> 222 \<and> n \<noteq> 215)
      then char_of (n + 32) else c)"

definition toLowerCase :: "string \<Rightarrow> string" where
  "toLowerCase s = map lowerChar s"

text \<open>
  Under the flag \<open>i\<close> a pattern character that is an ASCII letter matches exactly its two
  ASCII cases: canonicalization never maps a code unit above 127 to one below 128.
\<close>

definition asciiLower :: "char \<Rightarrow> char" where
  "asciiLower c = (if is_upper c then char_of (of_char c + (32 :: nat)) else c)"

text \<open>\<open>s.includes(p)\<close>\<close>

fun includes_str :: "string \<Rightarrow> string \<Rightarrow> bool" where
  "includes_str p [] = (p = [])"
| "includes_str p (c # cs) = (startsWith p (c # cs) \<or> includes_str p cs)"

section \<open>Regular expressions as matchers\<close>

text \<open>
  A position in the subject string is the character before it (if any) and the rest of
  the string. A matcher gives, for a start position, the positions at which a match of
  the pattern can end. \<open>regex.test(s)\<close> asks whether some match exists, so the order of
  the alternatives does not matter. Every repetition in the patterns of this program is
  over a single character class. None of the regular expressions has the flags \<open>g\<close>,
  \<open>y\<close> or \<open>m\<close>, so \<open>test\<close> keeps no state and \<open>$\<close> is the end of the string.
\<close>

type_synonym pos = "char option \<times> string"
type_synonym matcher = "pos \<Rightarrow> pos list"

definition rx_eps :: matcher where
  "rx_eps p = [p]"

definition rx_chr :: "(char \<Rightarrow> bool) \<Rightarrow> matcher" where
  "rx_chr P p = (case snd p of [] \<Rightarrow> [] | c # cs \<Rightarrow> if P c then [(Some c, cs)] else [])"

definition rx_seq :: "matcher \<Rightarrow> matcher \<Rightarrow> matcher" where
  "rx_seq a b p = concat (map b (a p))"

definition rx_opt :: "matcher \<Rightarrow> matcher" where
  "rx_opt a p = a p @ [p]"

fun rx_seqs :: "matcher list \<Rightarrow> matcher" where
  "rx_seqs [] = rx_eps"
| "rx_seqs (m # ms) = rx_seq m (rx_seqs ms)"

fun rx_alts :: "matcher list \<Rightarrow> matcher" where
  "rx_alts [] p = []"
| "rx_alts (m # ms) p = m p @ rx_alts ms p"

text \<open>A literal, and a literal under the flag \<open>i\<close> (written in lower case).\<close>

fun rx_lit :: "string \<Rightarrow> matcher" where
  "rx_lit [] = rx_eps"
| "rx_lit (c # cs) = rx_seq (rx_chr (\<lambda>x. x = c)) (rx_lit cs)"

fun rx_litI :: "string \<Rightarrow> matcher" where
  "rx_litI [] = rx_eps"
| "rx_litI (c # cs) = rx_seq (rx_chr (\<lambda>x. asciiLower x = c)) (rx_litI cs)"

text \<open>\<open>m{n}\<close>, \<open>m{0,n}\<close>, \<open>[class]*\<close> and \<open>[class]{n,}\<close>\<close>

fun rx_rep :: "nat \<Rightarrow> matcher \<Rightarrow> matcher" where
  "rx_rep 0 m = rx_eps"
| "rx_rep (Suc n) m = rx_seq m (rx_rep n m)"

fun rx_upto :: "nat \<Rightarrow> matcher \<Rightarrow> matcher" where
  "rx_upto 0 m = rx_eps"
| "rx_upto (Suc n) m = rx_opt (rx_seq m (rx_upto n m))"

fun rx_many :: "(char \<Rightarrow> bool) \<Rightarrow> matcher" where
  "rx_many P (prev, []) = [(prev, [])]"
| "rx_many P (prev, c # cs) = (if P c then rx_many P (Some c, cs) else []) @ [(prev, c # cs)]"

definition rx_atLeast :: "nat \<Rightarrow> (char \<Rightarrow> bool) \<Rightarrow> matcher" where
  "rx_atLeast n P = rx_seq (rx_rep n (rx_chr P)) (rx_many P)"

text \<open>\<open>$\<close> and \<open>\b\<close>; the word characters are \<open>[A-Za-z0-9_]\<close>.\<close>

definition rx_eos :: matcher where
  "rx_eos p = (if snd p = [] then [p] else [])"

definition rx_wordB :: matcher where
  "rx_wordB p =
     (let wordBefore = (case fst p of None \<Rightarrow> False | Some c \<Rightarrow> is_ident_char c);
          wordAfter = (case snd p of [] \<Rightarrow> False | c # cs \<Rightarrow> is_ident_char c)
      in if wordBefore \<noteq> wordAfter then [p] else [])"

text \<open>
  \<open>/^.../.test(s)\<close> starts at the beginning of \<open>s\<close>; without \<open>^\<close> every position of
  \<open>s\<close> is tried.
\<close>

fun positions :: "char option \<Rightarrow> string \<Rightarrow> pos list" where
  "positions prev [] = [(prev, [])]"
| "positions prev (c # cs) = (prev, c # cs) # positions (Some c) cs"

definition rx_testStart :: "matcher \<Rightarrow> string \<Rightarrow> bool" where
  "rx_testStart m s = (m (None, s) \<noteq> [])"

definition rx_test :: "matcher \<Rightarrow> string \<Rightarrow> bool" where
  "rx_test m s = list_ex (\<lambda>p. m p \<noteq> []) (positions None s)"

text \<open>The character classes of the patterns.\<close>

definition rx_dot :: "char \<Rightarrow> bool" where
  "rx_dot c = (\<not> is_lt c)"

definition is_alnum :: "char \<Rightarrow> bool" where
  "is_alnum c = (is_upper c \<or> is_lower c \<or> is_digit c)"

section \<open>Findings and results (types.ts)\<close>

text \<open>
  \<open>ValidationError\<close>, \<open>ValidationWarning\<close> and \<open>ValidationInfo\<close> have the same fields
  (an info has no suggestion); the type tag and the severity are string literals.
\<close>

record Finding =
  f_type :: string
  f_variable :: string
  f_message :: string
  f_lineNumber :: "nat option"
  f_suggestion :: "string option"
  f_severity :: string

type_synonym ValidationError = Finding
type_synonym ValidationWarning = Finding
type_synonym ValidationInfo = Finding

record ValidationSummary =
  totalVariables :: nat
  requiredVariables :: nat
  missingVariables :: nat
  unusedVariables :: nat
  securityIssues :: nat
  validationTime :: int

record ValidationResult =
  isValid :: bool
  errors :: "ValidationError list"
  warnings :: "ValidationWarning list"
  info :: "ValidationInfo list"
  summary :: ValidationSummary

text \<open>
  A \<open>RegExp\<close> object, or a predicate function, held by a rule: its \<open>test\<close> (its call)
  gives a boolean or throws (\<open>Inl\<close> is the message of the error thrown). The model
  takes it to answer the same for the same string on every call: a caller-supplied
  \<open>RegExp\<close> with the flag \<open>g\<close> or \<open>y\<close>, whose \<open>test\<close> moves \<open>lastIndex\<close>, and a
  predicate with state of its own are outside the model.
\<close>

type_synonym predicate = "string \<Rightarrow> string + bool"

record ValidationRule =
  r_name :: string
  r_description :: string
  r_severity :: string
  r_pattern :: "predicate option"
  r_customValidator :: "predicate option"

record SecurityRule =
  s_name :: string
  s_description :: string
  s_pattern :: predicate
  s_severity :: string
  s_suggestion :: "string option"

record VariableSchema =
  required :: bool
  vtype :: "string option"
  pattern :: "string option"
  description :: "string option"
  example :: "string option"
  allowEmpty :: bool
  deprecated :: bool
  alternatives :: "string list option"

text \<open>
  \<open>schema_variables\<close> lists the own properties of the object \<open>schema.variables\<close> in the
  order of \<open>Object.keys\<close>.
\<close>

record EnvSchema =
  schema_variables :: "(string \<times> VariableSchema) list"
  rules :: "ValidationRule list option"
  ignorePatterns :: "string list option"

record EnvGuardConfig =
  schemaFile :: "string option"
  exampleFile :: "string option"
  envFile :: "string option"
  cfg_ignorePatterns :: "string list option"
  cfg_securityRules :: "SecurityRule list option"

section \<open>The host\<close>

text \<open>
  What the program takes from the JavaScript runtime and the file system: the regular
  expression engine on pattern strings that come from configuration
  (\<open>new RegExp(pattern).test(s)\<close>, which throws on a malformed pattern), the parsers
  behind \<open>Number\<close>, \<open>new URL\<close> and \<open>JSON.parse\<close>, reading a file, reading a schema
  document, and the elapsed times \<open>Date.now() - startTime\<close> seen by the three
  \<open>validate\<close> methods. \<open>Inl\<close> is the message of the error thrown. A schema document
  is taken to have the shape of \<open>EnvSchema\<close>; a rule's pattern or predicate may be any
  value, since calling it may throw.
\<close>

record Host =
  regexTest :: "string \<Rightarrow> string \<Rightarrow> string + bool"
  isFiniteNumber :: "string \<Rightarrow> bool"
  parseUrl :: "string \<Rightarrow> (string \<times> string) option"
  parsesAsJson :: "string \<Rightarrow> bool"
  readFile :: "string \<Rightarrow> string + string"
  extname :: "string \<Rightarrow> string"
  parseJsonSchema :: "string \<Rightarrow> string + EnvSchema"
  parseYamlSchema :: "string \<Rightarrow> string + EnvSchema"
  schemaElapsed :: int
  exampleElapsed :: int
  totalElapsed :: int

section \<open>JavaScript maps\<close>

text \<open>
  \<open>new Map(entries)\<close> as an association list in insertion order: setting a key that is
  present replaces its value and keeps its place.
\<close>

fun mapSet :: "(string \<times> 'a) list \<Rightarrow> string \<Rightarrow> 'a \<Rightarrow> (string \<times> 'a) list" where
  "mapSet [] k v = [(k, v)]"
| "mapSet ((k', v') # m) k v = (if k' = k then (k, v) # m else (k', v') # mapSet m k v)"

definition newMap :: "(string \<times> 'a) list \<Rightarrow> (string \<times> 'a) list" where
  "newMap entries = foldl (\<lambda>m (k, v). mapSet m k v) [] entries"

definition mapKeys :: "(string \<times> 'a) list \<Rightarrow> string list" where
  "mapKeys m = map fst m"

definition mapHas :: "(string \<times> 'a) list \<Rightarrow> string \<Rightarrow> bool" where
  "mapHas m k = (map_of m k \<noteq> None)"

definition mapGet :: "(string \<times> 'a) list \<Rightarrow> string \<Rightarrow> 'a option" where
  "mapGet m k = map_of m k"

definition quoted :: "string \<Rightarrow> string" where
  "quoted s = [SQUOTE] @ s @ [SQUOTE]"

section \<open>Example validator (core/example-validator.ts)\<close>

text \<open>Methods of \<open>ExampleValidator\<close> carry the prefix \<open>EV_\<close>.\<close>

record ExampleValidator =
  exampleVariables :: "EnvVariable list"
  ev_ignorePatterns :: "string list"

text \<open>\<open>patterns.some(pattern => new RegExp(pattern).test(key))\<close>\<close>

fun someRegexTest :: "Host \<Rightarrow> string list \<Rightarrow> string \<Rightarrow> string + bool" where
  "someRegexTest h [] k = Inr False"
| "someRegexTest h (p # ps) k =
     (case regexTest h p k of
        Inl e \<Rightarrow> Inl e
      | Inr b \<Rightarrow> if b then Inr True else someRegexTest h ps k)"

definition EV_shouldIgnoreVariable :: "Host \<Rightarrow> ExampleValidator \<Rightarrow> string \<Rightarrow> string + bool" where
  "EV_shouldIgnoreVariable h this k = someRegexTest h (ev_ignorePatterns this) k"

text \<open>
  The patterns \<open>/^<.*>$/\<close>, \<open>/^\[.*\]$/\<close>, \<open>/^{.*}$/\<close>, \<open>/^your_.*$/i\<close>, \<open>/^example_.*$/i\<close>,
  \<open>/^placeholder$/i\<close>, \<open>/^change_me$/i\<close>, \<open>/^replace_me$/i\<close> and \<open>/^xxx+$/i\<close>.
\<close>

definition EV_placeholderPatterns :: "matcher list" where
  "EV_placeholderPatterns =
     [rx_seqs [rx_lit ''<'', rx_many rx_dot, rx_lit ''>'', rx_eos],
      rx_seqs [rx_lit ''['', rx_many rx_dot, rx_lit '']'', rx_eos],
      rx_seqs [rx_lit ''{'', rx_many rx_dot, rx_lit ''}'', rx_eos],
      rx_seqs [rx_litI ''your_'', rx_many rx_dot, rx_eos],
      rx_seqs [rx_litI ''example_'', rx_many rx_dot, rx_eos],
      rx_seqs [rx_litI ''placeholder'', rx_eos],
      rx_seqs [rx_litI ''change_me'', rx_eos],
      rx_seqs [rx_litI ''replace_me'', rx_eos],
      rx_seqs [rx_litI ''xx'', rx_atLeast 1 (\<lambda>c. asciiLower c = CHR ''x''), rx_eos]]"

definition EV_isPlaceholderValue :: "string \<Rightarrow> bool" where
  "EV_isPlaceholderValue v = list_ex (\<lambda>pattern. rx_testStart pattern (trim v)) EV_placeholderPatterns"

definition EV_looksLikeUrl :: "Host \<Rightarrow> string \<Rightarrow> bool" where
  "EV_looksLikeUrl h v = (parseUrl h v \<noteq> None)"

definition EV_looksLikeNumber :: "Host \<Rightarrow> string \<Rightarrow> bool" where
  "EV_looksLikeNumber h v = isFiniteNumber h v"

definition looksLikeBoolean :: "string \<Rightarrow> bool" where
  "looksLikeBoolean v = (toLowerCase v \<in> set [''true'', ''false'', ''1'', ''0'', ''yes'', ''no''])"

text \<open>\<open>/^[^\s@]+@[^\s@]+\.[^\s@]+$/\<close>\<close>

definition notSpaceAt :: "char \<Rightarrow> bool" where
  "notSpaceAt c = (\<not> is_ws c \<and> c \<noteq> CHR ''@'')"

definition looksLikeEmail :: "string \<Rightarrow> bool" where
  "looksLikeEmail v =
     rx_testStart (rx_seqs [rx_atLeast 1 notSpaceAt, rx_lit ''@'', rx_atLeast 1 notSpaceAt,
                            rx_lit ''.'', rx_atLeast 1 notSpaceAt, rx_eos]) v"

definition EV_generateSuggestionFromExample :: "EnvVariable \<Rightarrow> string" where
  "EV_generateSuggestionFromExample exampleVar =
     key exampleVar @ ''='' @ val exampleVar
       @ (case hasComment exampleVar of
            None \<Rightarrow> []
          | Some c \<Rightarrow> if c = [] then [] else '' # '' @ c)"

text \<open>
  Each \<open>validate...\<close> method pushes onto the arrays it is given; the model takes the
  arrays and returns them. \<open>exampleMap.get(key)!\<close> on a key that the map lacks would be
  \<open>undefined\<close>, whose fields cannot be read.
\<close>

fun EV_validateMissingVariables ::
  "Host \<Rightarrow> ExampleValidator \<Rightarrow> string list \<Rightarrow> (string \<times> EnvVariable) list
     \<Rightarrow> (string \<times> EnvVariable) list \<Rightarrow> ValidationError list \<Rightarrow> string + ValidationError list"
where
  "EV_validateMissingVariables h this [] variableMap exampleMap errs = Inr errs"
| "EV_validateMissingVariables h this (k # ks) variableMap exampleMap errs =
     (if mapHas variableMap k then EV_validateMissingVariables h this ks variableMap exampleMap errs
      else
        (case EV_shouldIgnoreVariable h this k of
           Inl e \<Rightarrow> Inl e
         | Inr ignored \<Rightarrow>
             if ignored then EV_validateMissingVariables h this ks variableMap exampleMap errs
             else
               (case mapGet exampleMap k of
                  None \<Rightarrow> Inl ''Cannot read properties of undefined''
                | Some exampleVar \<Rightarrow>
                    EV_validateMissingVariables h this ks variableMap exampleMap
                      (errs @
                        [\<lparr>f_type = ''missing_required'', f_variable = k,
                          f_message = ''Variable '' @ quoted k
                            @ '' is present in example but missing from .env file'',
                          f_lineNumber = None,
                          f_suggestion = Some (EV_generateSuggestionFromExample exampleVar),
                          f_severity = ''error''\<rparr>]))))"

fun EV_validateUnusedVariables ::
  "Host \<Rightarrow> ExampleValidator \<Rightarrow> string list \<Rightarrow> string list \<Rightarrow> (string \<times> EnvVariable) list
     \<Rightarrow> ValidationWarning list \<Rightarrow> string + ValidationWarning list"
where
  "EV_validateUnusedVariables h this [] exampleKeys variableMap warns = Inr warns"
| "EV_validateUnusedVariables h this (k # ks) exampleKeys variableMap warns =
     (if k \<in> set exampleKeys then EV_validateUnusedVariables h this ks exampleKeys variableMap warns
      else
        (case EV_shouldIgnoreVariable h this k of
           Inl e \<Rightarrow> Inl e
         | Inr ignored \<Rightarrow>
             if ignored then EV_validateUnusedVariables h this ks exampleKeys variableMap warns
             else
               (case mapGet variableMap k of
                  None \<Rightarrow> Inl ''Cannot read properties of undefined''
                | Some variable \<Rightarrow>
                    EV_validateUnusedVariables h this ks exampleKeys variableMap
                      (warns @
                        [\<lparr>f_type = ''unused_variable'', f_variable = k,
                          f_message = ''Variable '' @ quoted k @ '' is not present in .env.example'',
                          f_lineNumber = Some (lineNumber variable),
                          f_suggestion =
                            Some ''Add this variable to .env.example or remove it if not needed'',
                          f_severity = ''warning''\<rparr>]))))"

fun EV_validateEmptyValues ::
  "EnvVariable list \<Rightarrow> (string \<times> EnvVariable) list \<Rightarrow> ValidationWarning list
     \<Rightarrow> ValidationWarning list"
where
  "EV_validateEmptyValues [] exampleMap warns = warns"
| "EV_validateEmptyValues (variable # rest) exampleMap warns =
     (case mapGet exampleMap (key variable) of
        None \<Rightarrow> EV_validateEmptyValues rest exampleMap warns
      | Some exampleVar \<Rightarrow>
          if trim (val variable) = [] \<and> trim (val exampleVar) \<noteq> []
               \<and> \<not> EV_isPlaceholderValue (val exampleVar)
          then
            EV_validateEmptyValues rest exampleMap
              (warns @
                [\<lparr>f_type = ''unused_variable'', f_variable = key variable,
                  f_message = ''Variable '' @ quoted (key variable)
                    @ '' is empty but has a value in example'',
                  f_lineNumber = Some (lineNumber variable),
                  f_suggestion = Some (''Consider setting a value. Example: '' @ val exampleVar),
                  f_severity = ''warning''\<rparr>])
          else EV_validateEmptyValues rest exampleMap warns)"

text \<open>\<open>detectFormatMismatch\<close> returns the message and the suggestion, or \<open>null\<close>.\<close>

definition EV_detectFormatMismatch ::
  "Host \<Rightarrow> EnvVariable \<Rightarrow> EnvVariable \<Rightarrow> (string \<times> string) option"
where
  "EV_detectFormatMismatch h variable exampleVar =
     (let v = val variable; ex = val exampleVar in
      if EV_isPlaceholderValue ex then None
      else if EV_looksLikeUrl h ex \<and> \<not> EV_looksLikeUrl h v then
        Some (''Variable '' @ quoted (key variable) @ '' should be a URL based on example'',
              ''Expected URL format like: '' @ ex)
      else if EV_looksLikeNumber h ex \<and> \<not> EV_looksLikeNumber h v then
        Some (''Variable '' @ quoted (key variable) @ '' should be a number based on example'',
              ''Expected number format like: '' @ ex)
      else if looksLikeBoolean ex \<and> \<not> looksLikeBoolean v then
        Some (''Variable '' @ quoted (key variable) @ '' should be a boolean based on example'',
              ''Expected boolean format like: '' @ ex)
      else if looksLikeEmail ex \<and> \<not> looksLikeEmail v then
        Some (''Variable '' @ quoted (key variable) @ '' should be an email based on example'',
              ''Expected email format like: '' @ ex)
      else None)"

definition EV_getFormatInfo :: "EnvVariable \<Rightarrow> EnvVariable \<Rightarrow> string option" where
  "EV_getFormatInfo variable exampleVar =
     (let ex = val exampleVar in
      if EV_isPlaceholderValue ex
      then Some (''Variable '' @ quoted (key variable) @ '' uses placeholder in example: '' @ ex)
      else None)"

text \<open>An empty message is falsy, so \<open>if (formatInfo)\<close> needs a non-empty one.\<close>

fun EV_validateValueFormats ::
  "Host \<Rightarrow> EnvVariable list \<Rightarrow> (string \<times> EnvVariable) list \<Rightarrow> ValidationWarning list
     \<Rightarrow> ValidationInfo list \<Rightarrow> ValidationWarning list \<times> ValidationInfo list"
where
  "EV_validateValueFormats h [] exampleMap warns infos = (warns, infos)"
| "EV_validateValueFormats h (variable # rest) exampleMap warns infos =
     (case mapGet exampleMap (key variable) of
        None \<Rightarrow> EV_validateValueFormats h rest exampleMap warns infos
      | Some exampleVar \<Rightarrow>
          if trim (val variable) = [] then EV_validateValueFormats h rest exampleMap warns infos
          else
            (let warns' =
                   (case EV_detectFormatMismatch h variable exampleVar of
                      None \<Rightarrow> warns
                    | Some (msg, sugg) \<Rightarrow>
                        warns @
                          [\<lparr>f_type = ''weak_pattern'', f_variable = key variable,
                            f_message = msg, f_lineNumber = Some (lineNumber variable),
                            f_suggestion = Some sugg, f_severity = ''warning''\<rparr>]);
                 infos' =
                   (case EV_getFormatInfo variable exampleVar of
                      None \<Rightarrow> infos
                    | Some formatInfo \<Rightarrow>
                        if formatInfo = [] then infos
                        else
                          infos @
                            [\<lparr>f_type = ''info'', f_variable = key variable,
                              f_message = formatInfo, f_lineNumber = Some (lineNumber variable),
                              f_suggestion = None, f_severity = ''info''\<rparr>])
             in EV_validateValueFormats h rest exampleMap warns' infos'))"

definition EV_createSummary ::
  "ExampleValidator \<Rightarrow> EnvVariable list \<Rightarrow> ValidationError list \<Rightarrow> ValidationWarning list
     \<Rightarrow> int \<Rightarrow> ValidationSummary"
where
  "EV_createSummary this vs errs warns t =
     \<lparr>totalVariables = length vs,
      requiredVariables = length (exampleVariables this),
      missingVariables = length (filter (\<lambda>e. f_type e = ''missing_required'') errs),
      unusedVariables = length (filter (\<lambda>w. f_type w = ''unused_variable'') warns),
      securityIssues = 0,
      validationTime = t\<rparr>"

text \<open>\<open>validate\<close> returns the result, or throws (\<open>Inl\<close>) when an ignore pattern does.\<close>

definition EV_validate :: "Host \<Rightarrow> ExampleValidator \<Rightarrow> EnvVariable list \<Rightarrow> string + ValidationResult"
where
  "EV_validate h this vs =
     (let variableMap = newMap (map (\<lambda>v. (key v, v)) vs);
          exampleMap = newMap (map (\<lambda>v. (key v, v)) (exampleVariables this));
          envKeys = mapKeys variableMap;
          exampleKeys = mapKeys exampleMap
      in
      case EV_validateMissingVariables h this exampleKeys variableMap exampleMap [] of
        Inl e \<Rightarrow> Inl e
      | Inr errs \<Rightarrow>
          (case EV_validateUnusedVariables h this envKeys exampleKeys variableMap [] of
             Inl e \<Rightarrow> Inl e
           | Inr warns1 \<Rightarrow>
               (let warns2 = EV_validateEmptyValues vs exampleMap warns1 in
                case EV_validateValueFormats h vs exampleMap warns2 [] of
                  (warns3, infos) \<Rightarrow>
                    Inr \<lparr>isValid = (length errs = 0), errors = errs, warnings = warns3,
                         info = infos,
                         summary = EV_createSummary this vs errs warns3 (exampleElapsed h)\<rparr>)))"

text \<open>
  A host for closed examples: every pattern string fails to match, nothing parses as a
  number, a URL or JSON, no file exists, and all elapsed times are 0.
\<close>

definition plainHost :: Host where
  "plainHost =
     \<lparr>regexTest = (\<lambda>p s. Inr False), isFiniteNumber = (\<lambda>s. False), parseUrl = (\<lambda>s. None),
      parsesAsJson = (\<lambda>s. False), readFile = (\<lambda>p. Inl ''ENOENT''), extname = (\<lambda>p. []),
      parseJsonSchema = (\<lambda>s. Inl ''Unexpected token''),
      parseYamlSchema = (\<lambda>s. Inl ''Unexpected token''),
      schemaElapsed = 0, exampleElapsed = 0, totalElapsed = 0\<rparr>"

section \<open>Security analyzer (security/analyzer.ts)\<close>

text \<open>Methods of \<open>SecurityAnalyzer\<close> carry the prefix \<open>SA_\<close>.\<close>

record SecurityAnalyzer =
  securityRules :: "SecurityRule list"

definition regexRule :: "matcher \<Rightarrow> predicate" where
  "regexRule m = (\<lambda>s. Inr (rx_test m s))"

text \<open>
  The patterns of the built-in rules:
  \<open>/password.*=.*(admin|password|123456|qwerty|letmein)/i\<close>,
  \<open>/api[_-]?key.*=.*[a-zA-Z0-9]{20,}/i\<close>,
  \<open>/secret.*=.*[a-zA-Z0-9]{16,}/i\<close>,
  \<open>/jwt[_-]?secret.*=.*(secret|jwt|token|key)$/i\<close> and
  \<open>/(db|database)[_-]?(user|username|password).*=.*(root|admin|user|password)$/i\<close>.
\<close>

definition underscoreOrDash :: "char \<Rightarrow> bool" where
  "underscoreOrDash c = (c = CHR ''_'' \<or> c = CHR ''-'')"

definition SA_getDefaultSecurityRules :: "SecurityRule list" where
  "SA_getDefaultSecurityRules =
     [\<lparr>s_name = ''hardcoded-password'', s_description = ''Hardcoded password detected'',
       s_pattern = regexRule (rx_seqs [rx_litI ''password'', rx_many rx_dot, rx_lit ''='',
          rx_many rx_dot,
          rx_alts [rx_litI ''admin'', rx_litI ''password'', rx_litI ''123456'', rx_litI ''qwerty'',
                   rx_litI ''letmein'']]),
       s_severity = ''error'',
       s_suggestion = Some ''Use a strong, unique password and store it securely''\<rparr>,
      \<lparr>s_name = ''hardcoded-api-key'', s_description = ''Potential hardcoded API key detected'',
       s_pattern = regexRule (rx_seqs [rx_litI ''api'', rx_opt (rx_chr underscoreOrDash),
          rx_litI ''key'', rx_many rx_dot, rx_lit ''='', rx_many rx_dot, rx_atLeast 20 is_alnum]),
       s_severity = ''warning'',
       s_suggestion = Some ''Ensure API keys are not committed to version control''\<rparr>,
      \<lparr>s_name = ''hardcoded-secret'', s_description = ''Potential hardcoded secret detected'',
       s_pattern = regexRule (rx_seqs [rx_litI ''secret'', rx_many rx_dot, rx_lit ''='',
          rx_many rx_dot, rx_atLeast 16 is_alnum]),
       s_severity = ''warning'',
       s_suggestion = Some ''Ensure secrets are not committed to version control''\<rparr>,
      \<lparr>s_name = ''weak-jwt-secret'', s_description = ''Weak JWT secret detected'',
       s_pattern = regexRule (rx_seqs [rx_litI ''jwt'', rx_opt (rx_chr underscoreOrDash),
          rx_litI ''secret'', rx_many rx_dot, rx_lit ''='', rx_many rx_dot,
          rx_alts [rx_litI ''secret'', rx_litI ''jwt'', rx_litI ''token'', rx_litI ''key''], rx_eos]),
       s_severity = ''error'',
       s_suggestion = Some ''Use a strong, randomly generated JWT secret''\<rparr>,
      \<lparr>s_name = ''default-database-credentials'',
       s_description = ''Default database credentials detected'',
       s_pattern = regexRule (rx_seqs [rx_alts [rx_litI ''db'', rx_litI ''database''],
          rx_opt (rx_chr underscoreOrDash),
          rx_alts [rx_litI ''user'', rx_litI ''username'', rx_litI ''password''],
          rx_many rx_dot, rx_lit ''='', rx_many rx_dot,
          rx_alts [rx_litI ''root'', rx_litI ''admin'', rx_litI ''user'', rx_litI ''password''],
          rx_eos]),
       s_severity = ''error'',
       s_suggestion = Some ''Use strong, unique database credentials''\<rparr>]"

text \<open>The constructor: the built-in rules, then the custom rules.\<close>

definition newSecurityAnalyzer :: "SecurityRule list \<Rightarrow> SecurityAnalyzer" where
  "newSecurityAnalyzer customRules = \<lparr>securityRules = SA_getDefaultSecurityRules @ customRules\<rparr>"

text \<open>The state of \<open>analyze\<close> is the three arrays \<open>errors\<close>, \<open>warnings\<close> and \<open>info\<close>.\<close>

type_synonym findings = "ValidationError list \<times> ValidationWarning list \<times> ValidationInfo list"

fun SA_checkSecurityRules ::
  "SecurityRule list \<Rightarrow> EnvVariable \<Rightarrow> findings \<Rightarrow> string + findings"
where
  "SA_checkSecurityRules [] variable st = Inr st"
| "SA_checkSecurityRules (rule # rest) variable (errs, warns, infos) =
     (case s_pattern rule (key variable @ ''='' @ val variable) of
        Inl e \<Rightarrow> Inl e
      | Inr matched \<Rightarrow>
          if \<not> matched then SA_checkSecurityRules rest variable (errs, warns, infos)
          else if s_severity rule = ''error'' then
            SA_checkSecurityRules rest variable
              (errs @ [\<lparr>f_type = ''security_risk'', f_variable = key variable,
                        f_message = s_description rule,
                        f_lineNumber = Some (lineNumber variable),
                        f_suggestion = s_suggestion rule, f_severity = ''error''\<rparr>],
               warns, infos)
          else if s_severity rule = ''warning'' then
            SA_checkSecurityRules rest variable
              (errs,
               warns @ [\<lparr>f_type = ''security_risk'', f_variable = key variable,
                         f_message = s_description rule,
                         f_lineNumber = Some (lineNumber variable),
                         f_suggestion = s_suggestion rule, f_severity = ''warning''\<rparr>],
               infos)
          else if s_severity rule = ''info'' then
            SA_checkSecurityRules rest variable
              (errs, warns,
               infos @ [\<lparr>f_type = ''info'', f_variable = key variable,
                         f_message = s_description rule,
                         f_lineNumber = Some (lineNumber variable),
                         f_suggestion = None, f_severity = ''info''\<rparr>])
          else SA_checkSecurityRules rest variable (errs, warns, infos))"

text \<open>
  The shapes \<open>/^[A-Za-z0-9+/]{40,}={0,2}$/\<close>, \<open>/^[a-f0-9]{32,}$/i\<close> and
  \<open>/^[A-Za-z0-9_-]{32,}$/\<close>, each with its name.
\<close>

definition base64Char :: "char \<Rightarrow> bool" where
  "base64Char c = (is_alnum c \<or> c = CHR ''+'' \<or> c = CHR ''/'')"

definition hexCharI :: "char \<Rightarrow> bool" where
  "hexCharI c = (asciiLower c \<in> set ''abcdef'' \<or> is_digit c)"

definition tokenChar :: "char \<Rightarrow> bool" where
  "tokenChar c = (is_alnum c \<or> c = CHR ''_'' \<or> c = CHR ''-'')"

definition secretPatterns :: "(matcher \<times> string) list" where
  "secretPatterns =
     [(rx_seqs [rx_atLeast 40 base64Char, rx_upto 2 (rx_lit ''=''), rx_eos],
       ''Base64 encoded secret''),
      (rx_seqs [rx_atLeast 32 hexCharI, rx_eos], ''Hexadecimal secret''),
      (rx_seqs [rx_atLeast 32 tokenChar, rx_eos], ''Random string secret'')]"

definition SA_isWeakSecret :: "string \<Rightarrow> bool" where
  "SA_isWeakSecret v =
     (toLowerCase v \<in> set [''secret'', ''password'', ''admin'', ''root'', ''user'', ''test'', ''dev'',
        ''development'', ''123456'', ''qwerty'', ''letmein'', ''changeme'', ''default'']
      \<or> length v < 8)"

definition hardcodedSensitiveKeys :: "string list" where
  "hardcodedSensitiveKeys =
     [''secret'', ''key'', ''token'', ''password'', ''pass'', ''pwd'', ''auth'', ''credential'',
      ''private'']"

definition SA_checkHardcodedSecrets ::
  "EnvVariable \<Rightarrow> ValidationError list \<Rightarrow> ValidationWarning list
     \<Rightarrow> ValidationError list \<times> ValidationWarning list"
where
  "SA_checkHardcodedSecrets variable errs warns =
     (let v = val variable; k = toLowerCase (key variable);
          isSensitiveKey = list_ex (\<lambda>sensitiveKey. includes_str sensitiveKey k) hardcodedSensitiveKeys
      in
      if isSensitiveKey then
        (let warns' =
               (case find (\<lambda>p. rx_testStart (fst p) v) secretPatterns of
                  None \<Rightarrow> warns
                | Some matchedPattern \<Rightarrow>
                    warns @
                      [\<lparr>f_type = ''security_risk'', f_variable = key variable,
                        f_message = ''Potential '' @ snd matchedPattern
                          @ '' detected in sensitive variable'',
                        f_lineNumber = Some (lineNumber variable),
                        f_suggestion =
                          Some ''Ensure this secret is not committed to version control'',
                        f_severity = ''warning''\<rparr>]);
             errs' =
               (if SA_isWeakSecret v then
                  errs @
                    [\<lparr>f_type = ''security_risk'', f_variable = key variable,
                      f_message = ''Weak or default secret detected'',
                      f_lineNumber = Some (lineNumber variable),
                      f_suggestion = Some ''Use a strong, randomly generated secret'',
                      f_severity = ''error''\<rparr>]
                else errs)
         in (errs', warns'))
      else (errs, warns))"

text \<open>
  The placeholder patterns of the security analyzer: those of the example validator,
  then \<open>/^todo$/i\<close> and \<open>/^fixme$/i\<close>.
\<close>

definition SA_placeholderPatterns :: "matcher list" where
  "SA_placeholderPatterns =
     [rx_seqs [rx_lit ''<'', rx_many rx_dot, rx_lit ''>'', rx_eos],
      rx_seqs [rx_lit ''['', rx_many rx_dot, rx_lit '']'', rx_eos],
      rx_seqs [rx_lit ''{'', rx_many rx_dot, rx_lit ''}'', rx_eos],
      rx_seqs [rx_litI ''your_'', rx_many rx_dot, rx_eos],
      rx_seqs [rx_litI ''example_'', rx_many rx_dot, rx_eos],
      rx_seqs [rx_litI ''placeholder'', rx_eos],
      rx_seqs [rx_litI ''change_me'', rx_eos],
      rx_seqs [rx_litI ''replace_me'', rx_eos],
      rx_seqs [rx_litI ''xx'', rx_atLeast 1 (\<lambda>c. asciiLower c = CHR ''x''), rx_eos],
      rx_seqs [rx_litI ''todo'', rx_eos],
      rx_seqs [rx_litI ''fixme'', rx_eos]]"

definition SA_isPlaceholderValue :: "string \<Rightarrow> bool" where
  "SA_isPlaceholderValue v = list_ex (\<lambda>pattern. rx_testStart pattern (trim v)) SA_placeholderPatterns"

text \<open>
  The development indicators \<open>/localhost/i\<close>, \<open>/127\.0\.0\.1/\<close>,
  \<open>/(dev|test|staging|debug)/i\<close> and \<open>/^(true|false)$/i\<close>; the last one carries the
  severity \<open>info\<close>, the others default to \<open>warning\<close>.
\<close>

definition devPatterns :: "((string \<Rightarrow> bool) \<times> string \<times> string option) list" where
  "devPatterns =
     [(rx_test (rx_litI ''localhost''), ''Localhost URL detected'', None),
      (rx_test (rx_lit ''127.0.0.1''), ''Localhost IP detected'', None),
      (rx_test (rx_alts [rx_litI ''dev'', rx_litI ''test'', rx_litI ''staging'', rx_litI ''debug'']),
       ''Development/test environment indicator'', None),
      (rx_testStart (rx_seqs [rx_alts [rx_litI ''true'', rx_litI ''false''], rx_eos]),
       ''Boolean flag detected'', Some ''info'')]"

fun devPatternLoop ::
  "((string \<Rightarrow> bool) \<times> string \<times> string option) list \<Rightarrow> EnvVariable
     \<Rightarrow> ValidationWarning list \<Rightarrow> ValidationInfo list
     \<Rightarrow> ValidationWarning list \<times> ValidationInfo list"
where
  "devPatternLoop [] variable warns infos = (warns, infos)"
| "devPatternLoop ((test, msg, sev) # rest) variable warns infos =
     (if test (val variable) then
        (let severity = (case sev of None \<Rightarrow> ''warning'' | Some s \<Rightarrow> if s = [] then ''warning'' else s)
         in
         if severity = ''warning'' then
           devPatternLoop rest variable
             (warns @ [\<lparr>f_type = ''weak_pattern'', f_variable = key variable, f_message = msg,
                       f_lineNumber = Some (lineNumber variable),
                       f_suggestion = Some ''Ensure this is appropriate for production'',
                       f_severity = ''warning''\<rparr>])
             infos
         else
           devPatternLoop rest variable warns
             (infos @ [\<lparr>f_type = ''info'', f_variable = key variable, f_message = msg,
                       f_lineNumber = Some (lineNumber variable), f_suggestion = None,
                       f_severity = ''info''\<rparr>]))
      else devPatternLoop rest variable warns infos)"

definition SA_checkWeakPatterns ::
  "EnvVariable \<Rightarrow> ValidationWarning list \<Rightarrow> ValidationInfo list
     \<Rightarrow> ValidationWarning list \<times> ValidationInfo list"
where
  "SA_checkWeakPatterns variable warns infos =
     (let v = val variable; k = toLowerCase (key variable) in
      case devPatternLoop devPatterns variable warns infos of
        (warns1, infos1) \<Rightarrow>
          (let isSensitive =
                 list_ex (\<lambda>sensitiveKey. includes_str sensitiveKey k)
                   [''secret'', ''key'', ''token'', ''password'', ''auth'']
           in
           if isSensitive \<and> SA_isPlaceholderValue v then
             (warns1 @ [\<lparr>f_type = ''weak_pattern'', f_variable = key variable,
                        f_message = ''Placeholder value detected in sensitive variable'',
                        f_lineNumber = Some (lineNumber variable),
                        f_suggestion = Some ''Replace with actual secure value'',
                        f_severity = ''warning''\<rparr>],
              infos1)
           else (warns1, infos1)))"

text \<open>
  The shapes \<open>/\b\d{4}[-\s]?\d{4}[-\s]?\d{4}[-\s]?\d{4}\b/\<close>, \<open>/\b\d{3}-\d{2}-\d{4}\b/\<close>,
  \<open>/[a-zA-Z0-9._%+-]+@[a-zA-Z0-9.-]+\.[a-zA-Z]{2,}/\<close> and
  \<open>/\b\d{1,3}\.\d{1,3}\.\d{1,3}\.\d{1,3}\b/\<close>.
\<close>

definition dashOrSpace :: "char \<Rightarrow> bool" where
  "dashOrSpace c = (c = CHR ''-'' \<or> is_ws c)"

definition digits13 :: matcher where
  "digits13 = rx_seq (rx_chr is_digit) (rx_upto 2 (rx_chr is_digit))"

definition sensitivePatterns :: "(matcher \<times> string) list" where
  "sensitivePatterns =
     [(rx_seqs [rx_wordB, rx_rep 4 (rx_chr is_digit), rx_opt (rx_chr dashOrSpace),
                rx_rep 4 (rx_chr is_digit), rx_opt (rx_chr dashOrSpace),
                rx_rep 4 (rx_chr is_digit), rx_opt (rx_chr dashOrSpace),
                rx_rep 4 (rx_chr is_digit), rx_wordB],
       ''Credit card number pattern''),
      (rx_seqs [rx_wordB, rx_rep 3 (rx_chr is_digit), rx_lit ''-'', rx_rep 2 (rx_chr is_digit),
                rx_lit ''-'', rx_rep 4 (rx_chr is_digit), rx_wordB],
       ''SSN pattern''),
      (rx_seqs [rx_atLeast 1 (\<lambda>c. is_alnum c \<or> c \<in> set ''._%+-''), rx_lit ''@'',
                rx_atLeast 1 (\<lambda>c. is_alnum c \<or> c \<in> set ''.-''), rx_lit ''.'',
                rx_atLeast 2 (\<lambda>c. is_upper c \<or> is_lower c)],
       ''Email address''),
      (rx_seqs [rx_wordB, digits13, rx_lit ''.'', digits13, rx_lit ''.'', digits13, rx_lit ''.'',
                digits13, rx_wordB],
       ''IP address'')]"

fun sensitivePatternLoop ::
  "(matcher \<times> string) list \<Rightarrow> EnvVariable \<Rightarrow> ValidationWarning list \<Rightarrow> ValidationWarning list"
where
  "sensitivePatternLoop [] variable warns = warns"
| "sensitivePatternLoop ((m, msg) # rest) variable warns =
     (if rx_test m (val variable) then
        sensitivePatternLoop rest variable
          (warns @ [\<lparr>f_type = ''security_risk'', f_variable = key variable,
                    f_message = ''Potential '' @ msg @ '' detected'',
                    f_lineNumber = Some (lineNumber variable),
                    f_suggestion =
                      Some ''Verify this sensitive data should be in environment variables'',
                    f_severity = ''warning''\<rparr>])
      else sensitivePatternLoop rest variable warns)"

text \<open>
  \<open>new URL(value)\<close> inside \<open>try\<close>: \<open>parseUrl\<close> gives the user name and the password of
  a value that parses.
\<close>

definition SA_checkSensitiveDataExposure ::
  "Host \<Rightarrow> EnvVariable \<Rightarrow> ValidationWarning list \<Rightarrow> ValidationWarning list"
where
  "SA_checkSensitiveDataExposure h variable warns =
     (let warns1 = sensitivePatternLoop sensitivePatterns variable warns in
      case parseUrl h (val variable) of
        None \<Rightarrow> warns1
      | Some (username, password) \<Rightarrow>
          if username \<noteq> [] \<or> password \<noteq> [] then
            warns1 @ [\<lparr>f_type = ''security_risk'', f_variable = key variable,
                       f_message = ''URL contains embedded credentials'',
                       f_lineNumber = Some (lineNumber variable),
                       f_suggestion = Some ''Store credentials separately from URLs'',
                       f_severity = ''warning''\<rparr>]
          else warns1)"

fun analyzeLoop ::
  "Host \<Rightarrow> SecurityAnalyzer \<Rightarrow> EnvVariable list \<Rightarrow> findings \<Rightarrow> string + findings"
where
  "analyzeLoop h this [] st = Inr st"
| "analyzeLoop h this (variable # rest) st =
     (case SA_checkSecurityRules (securityRules this) variable st of
        Inl e \<Rightarrow> Inl e
      | Inr (errs1, warns1, infos1) \<Rightarrow>
          (case SA_checkHardcodedSecrets variable errs1 warns1 of
             (errs2, warns2) \<Rightarrow>
               (case SA_checkWeakPatterns variable warns2 infos1 of
                  (warns3, infos3) \<Rightarrow>
                    analyzeLoop h this rest
                      (errs2, SA_checkSensitiveDataExposure h variable warns3, infos3))))"

definition SA_analyze :: "Host \<Rightarrow> SecurityAnalyzer \<Rightarrow> EnvVariable list \<Rightarrow> string + findings" where
  "SA_analyze h this vs = analyzeLoop h this vs ([], [], [])"

section \<open>Schema validator (core/schema-validator.ts)\<close>

text \<open>Methods of \<open>SchemaValidator\<close> carry the prefix \<open>SV_\<close>.\<close>

record SchemaValidator =
  schema :: EnvSchema

text \<open>
  \<open>this.schema.variables[key]\<close> reads a property of a plain object: an own property, or
  else one that \<open>Object.prototype\<close> supplies under that name. Such an inherited value is
  truthy and has none of the fields of a variable schema.
\<close>

definition objectPrototypeKeys :: "string list" where
  "objectPrototypeKeys =
     [''constructor'', ''__defineGetter__'', ''__defineSetter__'', ''hasOwnProperty'',
      ''__lookupGetter__'', ''__lookupSetter__'', ''isPrototypeOf'', ''propertyIsEnumerable'',
      ''toString'', ''valueOf'', ''__proto__'', ''toLocaleString'']"

definition inheritedProperty :: VariableSchema where
  "inheritedProperty =
     \<lparr>required = False, vtype = None, pattern = None, description = None, example = None,
      allowEmpty = False, deprecated = False, alternatives = None\<rparr>"

definition schemaLookup :: "SchemaValidator \<Rightarrow> string \<Rightarrow> VariableSchema option" where
  "schemaLookup this k =
     (case map_of (schema_variables (schema this)) k of
        Some s \<Rightarrow> Some s
      | None \<Rightarrow> if k \<in> set objectPrototypeKeys then Some inheritedProperty else None)"

text \<open>An optional string is truthy when it is present and not empty.\<close>

definition truthy :: "string option \<Rightarrow> bool" where
  "truthy s = (case s of None \<Rightarrow> False | Some x \<Rightarrow> x \<noteq> [])"

definition exampleSuggestion :: "VariableSchema \<Rightarrow> string option" where
  "exampleSuggestion s = (if truthy (example s) then Some (''Example: '' @ the (example s)) else None)"

fun SV_validateRequiredVariables ::
  "SchemaValidator \<Rightarrow> string list \<Rightarrow> (string \<times> EnvVariable) list \<Rightarrow> ValidationError list
     \<Rightarrow> ValidationError list"
where
  "SV_validateRequiredVariables this [] variableMap errs = errs"
| "SV_validateRequiredVariables this (k # ks) variableMap errs =
     (case schemaLookup this k of
        None \<Rightarrow> SV_validateRequiredVariables this ks variableMap errs
      | Some s \<Rightarrow>
          if required s \<and> \<not> mapHas variableMap k then
            SV_validateRequiredVariables this ks variableMap
              (errs @
                [\<lparr>f_type = ''missing_required'', f_variable = k,
                  f_message = ''Required environment variable '' @ quoted k @ '' is missing'',
                  f_lineNumber = None,
                  f_suggestion =
                    Some (''Add '' @ k @ ''=''
                          @ (if truthy (example s) then the (example s) else ''<value>'')
                          @ (if truthy (description s) then '' # '' @ the (description s) else [])),
                  f_severity = ''error''\<rparr>])
          else SV_validateRequiredVariables this ks variableMap errs)"

fun SV_validateUnusedVariables ::
  "Host \<Rightarrow> SchemaValidator \<Rightarrow> string list \<Rightarrow> string list \<Rightarrow> (string \<times> EnvVariable) list
     \<Rightarrow> ValidationWarning list \<Rightarrow> string + ValidationWarning list"
where
  "SV_validateUnusedVariables h this [] schemaKeys variableMap warns = Inr warns"
| "SV_validateUnusedVariables h this (k # ks) schemaKeys variableMap warns =
     (if k \<in> set schemaKeys then SV_validateUnusedVariables h this ks schemaKeys variableMap warns
      else
        (case someRegexTest h (case ignorePatterns (schema this) of None \<Rightarrow> [] | Some ps \<Rightarrow> ps) k of
           Inl e \<Rightarrow> Inl e
         | Inr ignored \<Rightarrow>
             if ignored then SV_validateUnusedVariables h this ks schemaKeys variableMap warns
             else
               (case mapGet variableMap k of
                  None \<Rightarrow> Inl ''Cannot read properties of undefined''
                | Some variable \<Rightarrow>
                    SV_validateUnusedVariables h this ks schemaKeys variableMap
                      (warns @
                        [\<lparr>f_type = ''unused_variable'', f_variable = k,
                          f_message = ''Variable '' @ quoted k @ '' is not defined in schema'',
                          f_lineNumber = Some (lineNumber variable),
                          f_suggestion = Some ''Remove this variable or add it to your schema'',
                          f_severity = ''warning''\<rparr>]))))"

text \<open>
  \<open>validateVariableType\<close>: the \<open>switch\<close> leaves \<open>isValid\<close> true for \<open>string\<close> and for any
  other type name.
\<close>

definition SV_validateVariableType ::
  "Host \<Rightarrow> EnvVariable \<Rightarrow> VariableSchema \<Rightarrow> ValidationError list \<Rightarrow> ValidationError list"
where
  "SV_validateVariableType h variable s errs =
     (if \<not> truthy (vtype s) \<or> trim (val variable) = [] then errs
      else
        (let v = val variable; t = the (vtype s);
             (ok, expectedFormat) =
               (if t = ''number'' then (isFiniteNumber h v, ''a valid number'')
                else if t = ''boolean'' then (looksLikeBoolean v, ''true, false, 1, 0, yes, or no'')
                else if t = ''url'' then (parseUrl h v \<noteq> None, ''a valid URL'')
                else if t = ''email'' then (looksLikeEmail v, ''a valid email address'')
                else if t = ''json'' then (parsesAsJson h v, ''valid JSON'')
                else (True, []))
         in
         if \<not> ok then
           errs @
             [\<lparr>f_type = ''invalid_format'', f_variable = key variable,
               f_message = ''Variable '' @ quoted (key variable) @ '' must be '' @ expectedFormat,
               f_lineNumber = Some (lineNumber variable),
               f_suggestion = exampleSuggestion s, f_severity = ''error''\<rparr>]
         else errs))"

definition SV_validateVariablePattern ::
  "Host \<Rightarrow> EnvVariable \<Rightarrow> VariableSchema \<Rightarrow> ValidationError list \<Rightarrow> string + ValidationError list"
where
  "SV_validateVariablePattern h variable s errs =
     (if \<not> truthy (pattern s) \<or> trim (val variable) = [] then Inr errs
      else
        (case regexTest h (the (pattern s)) (val variable) of
           Inl e \<Rightarrow> Inl e
         | Inr matched \<Rightarrow>
             if \<not> matched then
               Inr (errs @
                 [\<lparr>f_type = ''invalid_format'', f_variable = key variable,
                   f_message = ''Variable '' @ quoted (key variable)
                     @ '' does not match required pattern'',
                   f_lineNumber = Some (lineNumber variable),
                   f_suggestion = exampleSuggestion s, f_severity = ''error''\<rparr>])
             else Inr errs))"

definition joinComma :: "string list \<Rightarrow> string" where
  "joinComma xs = join '', '' xs"

fun SV_validateVariableValues ::
  "Host \<Rightarrow> SchemaValidator \<Rightarrow> EnvVariable list \<Rightarrow> ValidationError list
     \<Rightarrow> ValidationWarning list \<Rightarrow> string + (ValidationError list \<times> ValidationWarning list)"
where
  "SV_validateVariableValues h this [] errs warns = Inr (errs, warns)"
| "SV_validateVariableValues h this (variable # rest) errs warns =
     (case schemaLookup this (key variable) of
        None \<Rightarrow> SV_validateVariableValues h this rest errs warns
      | Some s \<Rightarrow>
          (let warns' =
                 (if deprecated s then
                    warns @
                      [\<lparr>f_type = ''deprecated'', f_variable = key variable,
                        f_message = ''Variable '' @ quoted (key variable) @ '' is deprecated'',
                        f_lineNumber = Some (lineNumber variable),
                        f_suggestion =
                          Some (case alternatives s of
                                  None \<Rightarrow> ''Consider removing this variable''
                                | Some alts \<Rightarrow>
                                    if alts = [] then ''Consider removing this variable''
                                    else ''Consider using: '' @ joinComma alts),
                        f_severity = ''warning''\<rparr>]
                  else warns)
           in
           if \<not> allowEmpty s \<and> trim (val variable) = [] then
             SV_validateVariableValues h this rest
               (errs @
                 [\<lparr>f_type = ''invalid_format'', f_variable = key variable,
                   f_message = ''Variable '' @ quoted (key variable) @ '' cannot be empty'',
                   f_lineNumber = Some (lineNumber variable),
                   f_suggestion = exampleSuggestion s, f_severity = ''error''\<rparr>])
               warns'
           else
             (case SV_validateVariablePattern h variable s
                     (SV_validateVariableType h variable s errs) of
                Inl e \<Rightarrow> Inl e
              | Inr errs' \<Rightarrow> SV_validateVariableValues h this rest errs' warns')))"

text \<open>
  One finding of a custom rule, pushed onto the array that the rule's severity selects;
  any other severity pushes nothing.
\<close>

definition pushCustom :: "ValidationRule \<Rightarrow> EnvVariable \<Rightarrow> findings \<Rightarrow> findings" where
  "pushCustom rule variable st =
     (case st of
        (errs, warns, infos) \<Rightarrow>
          if r_severity rule = ''error'' then
            (errs @ [\<lparr>f_type = ''custom'', f_variable = key variable,
                      f_message = r_description rule, f_lineNumber = Some (lineNumber variable),
                      f_suggestion = None, f_severity = ''error''\<rparr>], warns, infos)
          else if r_severity rule = ''warning'' then
            (errs, warns @ [\<lparr>f_type = ''custom'', f_variable = key variable,
                      f_message = r_description rule, f_lineNumber = Some (lineNumber variable),
                      f_suggestion = None, f_severity = ''warning''\<rparr>], infos)
          else if r_severity rule = ''info'' then
            (errs, warns, infos @ [\<lparr>f_type = ''info'', f_variable = key variable,
                      f_message = r_description rule, f_lineNumber = Some (lineNumber variable),
                      f_suggestion = None, f_severity = ''info''\<rparr>])
          else (errs, warns, infos))"

text \<open>The body of the inner loop of \<open>applyCustomRules\<close>: the pattern, then the predicate.\<close>

definition applyRule :: "ValidationRule \<Rightarrow> EnvVariable \<Rightarrow> findings \<Rightarrow> string + findings" where
  "applyRule rule variable st =
     (case (case r_pattern rule of
              None \<Rightarrow> Inr st
            | Some test \<Rightarrow>
                (case test (val variable) of
                   Inl e \<Rightarrow> Inl e
                 | Inr matched \<Rightarrow> Inr (if \<not> matched then pushCustom rule variable st else st))) of
        Inl e \<Rightarrow> Inl e
      | Inr st1 \<Rightarrow>
          (case r_customValidator rule of
             None \<Rightarrow> Inr st1
           | Some validator \<Rightarrow>
               (case validator (val variable) of
                  Inl e \<Rightarrow> Inl e
                | Inr ok \<Rightarrow> Inr (if \<not> ok then pushCustom rule variable st1 else st1))))"

fun applyRuleToAll :: "ValidationRule \<Rightarrow> EnvVariable list \<Rightarrow> findings \<Rightarrow> string + findings" where
  "applyRuleToAll rule [] st = Inr st"
| "applyRuleToAll rule (variable # rest) st =
     (case applyRule rule variable st of
        Inl e \<Rightarrow> Inl e
      | Inr st' \<Rightarrow> applyRuleToAll rule rest st')"

fun applyRules :: "ValidationRule list \<Rightarrow> EnvVariable list \<Rightarrow> findings \<Rightarrow> string + findings" where
  "applyRules [] vs st = Inr st"
| "applyRules (rule # rest) vs st =
     (case applyRuleToAll rule vs st of
        Inl e \<Rightarrow> Inl e
      | Inr st' \<Rightarrow> applyRules rest vs st')"

definition SV_applyCustomRules ::
  "SchemaValidator \<Rightarrow> EnvVariable list \<Rightarrow> findings \<Rightarrow> string + findings"
where
  "SV_applyCustomRules this vs st =
     (case rules (schema this) of
        None \<Rightarrow> Inr st
      | Some rs \<Rightarrow> applyRules rs vs st)"

definition SV_createSummary ::
  "SchemaValidator \<Rightarrow> EnvVariable list \<Rightarrow> ValidationError list \<Rightarrow> ValidationWarning list
     \<Rightarrow> int \<Rightarrow> ValidationSummary"
where
  "SV_createSummary this vs errs warns t =
     \<lparr>totalVariables = length vs,
      requiredVariables = length (filter (\<lambda>v. required v) (map snd (schema_variables (schema this)))),
      missingVariables = length (filter (\<lambda>e. f_type e = ''missing_required'') errs),
      unusedVariables = length (filter (\<lambda>w. f_type w = ''unused_variable'') warns),
      securityIssues = length (filter (\<lambda>e. f_type e = ''security_risk'') errs),
      validationTime = t\<rparr>"

definition SV_validate :: "Host \<Rightarrow> SchemaValidator \<Rightarrow> EnvVariable list \<Rightarrow> string + ValidationResult"
where
  "SV_validate h this vs =
     (let variableMap = newMap (map (\<lambda>v. (key v, v)) vs);
          schemaKeys = map fst (schema_variables (schema this));
          envKeys = mapKeys variableMap;
          errs1 = SV_validateRequiredVariables this schemaKeys variableMap []
      in
      case SV_validateUnusedVariables h this envKeys schemaKeys variableMap [] of
        Inl e \<Rightarrow> Inl e
      | Inr warns1 \<Rightarrow>
          (case SV_validateVariableValues h this vs errs1 warns1 of
             Inl e \<Rightarrow> Inl e
           | Inr (errs2, warns2) \<Rightarrow>
               (case SV_applyCustomRules this vs (errs2, warns2, []) of
                  Inl e \<Rightarrow> Inl e
                | Inr (errs3, warns3, infos) \<Rightarrow>
                    Inr \<lparr>isValid = (length errs3 = 0), errors = errs3, warnings = warns3,
                         info = infos,
                         summary = SV_createSummary this vs errs3 warns3 (schemaElapsed h)\<rparr>)))"

section \<open>Orchestrator (core/validator.ts)\<close>

text \<open>Methods of \<open>EnvGuardValidator\<close> carry the prefix \<open>EG_\<close>; its only field is the configuration.\<close>

definition parseFile :: "Host \<Rightarrow> string \<Rightarrow> string + ParsedEnvFile" where
  "parseFile h filePath =
     (case readFile h filePath of
        Inl m \<Rightarrow> Inl (''Failed to read file '' @ filePath @ '': '' @ m)
      | Inr content \<Rightarrow> Inr (parseContent content))"

definition EG_loadSchema :: "Host \<Rightarrow> string \<Rightarrow> string + EnvSchema" where
  "EG_loadSchema h file =
     (case (case readFile h file of
              Inl m \<Rightarrow> Inl m
            | Inr content \<Rightarrow>
                (let ext = toLowerCase (extname h file) in
                 if ext = ''.json'' then parseJsonSchema h content
                 else if ext = ''.yaml'' \<or> ext = ''.yml'' then parseYamlSchema h content
                 else Inl (''Unsupported schema file format: '' @ ext))) of
        Inl m \<Rightarrow> Inl (''Failed to load schema file: '' @ m)
      | Inr s \<Rightarrow> Inr s)"

definition EG_createErrorResult :: "ParseError list \<Rightarrow> int \<Rightarrow> ValidationResult" where
  "EG_createErrorResult errs t =
     \<lparr>isValid = False,
      errors = map (\<lambda>e. \<lparr>f_type = ''invalid_format'', f_variable = [], f_message = pe_message e,
                          f_lineNumber = Some (pe_lineNumber e), f_suggestion = None,
                          f_severity = ''error''\<rparr>) errs,
      warnings = [], info = [],
      summary = \<lparr>totalVariables = 0, requiredVariables = 0, missingVariables = 0,
                  unusedVariables = 0, securityIssues = 0, validationTime = t\<rparr>\<rparr>"

definition EG_mergeSummaries :: "ValidationSummary \<Rightarrow> ValidationSummary \<Rightarrow> ValidationSummary" where
  "EG_mergeSummaries s1 s2 =
     \<lparr>totalVariables = max (totalVariables s1) (totalVariables s2),
      requiredVariables = max (requiredVariables s1) (requiredVariables s2),
      missingVariables = max (missingVariables s1) (missingVariables s2),
      unusedVariables = max (unusedVariables s1) (unusedVariables s2),
      securityIssues = securityIssues s1 + securityIssues s2,
      validationTime = max (validationTime s1) (validationTime s2)\<rparr>"

text \<open>
  \<open>deduplicateErrors\<close> and \<open>deduplicateWarnings\<close>: the filter keeps the first finding of
  each key \<open>type-variable-message\<close>; \<open>seen\<close> is the set of keys met so far.
\<close>

fun dedupe :: "string list \<Rightarrow> Finding list \<Rightarrow> Finding list" where
  "dedupe seen [] = []"
| "dedupe seen (f # fs) =
     (let k = f_type f @ ''-'' @ f_variable f @ ''-'' @ f_message f in
      if k \<in> set seen then dedupe seen fs else f # dedupe (k # seen) fs)"

definition EG_deduplicateErrors :: "ValidationError list \<Rightarrow> ValidationError list" where
  "EG_deduplicateErrors errs = dedupe [] errs"

definition EG_deduplicateWarnings :: "ValidationWarning list \<Rightarrow> ValidationWarning list" where
  "EG_deduplicateWarnings warns = dedupe [] warns"

text \<open>
  \<open>determineValidationMode\<close> gives the mode and, in the default case, sets
  \<open>config.exampleFile\<close>; the model returns the configuration with the mode.
\<close>

definition EG_determineValidationMode :: "EnvGuardConfig \<Rightarrow> string \<times> EnvGuardConfig" where
  "EG_determineValidationMode config =
     (if truthy (schemaFile config) \<and> truthy (exampleFile config) then (''both'', config)
      else if truthy (schemaFile config) then (''schema'', config)
      else if truthy (exampleFile config) then (''example'', config)
      else (''example'', config\<lparr>exampleFile := Some ''.env.example''\<rparr>))"

definition EG_validateWithSchema ::
  "Host \<Rightarrow> EnvGuardConfig \<Rightarrow> EnvVariable list \<Rightarrow> string + ValidationResult"
where
  "EG_validateWithSchema h config vs =
     (if \<not> truthy (schemaFile config)
      then Inl ''Schema file is required for schema validation mode''
      else
        (case EG_loadSchema h (the (schemaFile config)) of
           Inl e \<Rightarrow> Inl e
         | Inr s \<Rightarrow> SV_validate h \<lparr>schema = s\<rparr> vs))"

definition EG_validateWithExample ::
  "Host \<Rightarrow> EnvGuardConfig \<Rightarrow> EnvVariable list \<Rightarrow> string + ValidationResult"
where
  "EG_validateWithExample h config vs =
     (if \<not> truthy (exampleFile config)
      then Inl ''Example file is required for example validation mode''
      else
        (case parseFile h (the (exampleFile config)) of
           Inl e \<Rightarrow> Inl e
         | Inr exampleParsed \<Rightarrow>
             (case parseErrors exampleParsed of
                e # es \<Rightarrow> Inl (''Failed to parse example file: '' @ pe_message e)
              | [] \<Rightarrow>
                  EV_validate h
                    \<lparr>exampleVariables = variables exampleParsed,
                     ev_ignorePatterns =
                       (case cfg_ignorePatterns config of None \<Rightarrow> [] | Some ps \<Rightarrow> ps)\<rparr>
                    vs)))"

definition EG_validateWithBoth ::
  "Host \<Rightarrow> EnvGuardConfig \<Rightarrow> EnvVariable list \<Rightarrow> string + ValidationResult"
where
  "EG_validateWithBoth h config vs =
     (case EG_validateWithSchema h config vs of
        Inl e \<Rightarrow> Inl e
      | Inr schemaResult \<Rightarrow>
          (case EG_validateWithExample h config vs of
             Inl e \<Rightarrow> Inl e
           | Inr exampleResult \<Rightarrow>
               Inr \<lparr>isValid = (isValid schemaResult \<and> isValid exampleResult),
                    errors = EG_deduplicateErrors (errors schemaResult @ errors exampleResult),
                    warnings =
                      EG_deduplicateWarnings (warnings schemaResult @ warnings exampleResult),
                    info = info schemaResult @ info exampleResult,
                    summary = EG_mergeSummaries (summary schemaResult) (summary exampleResult)\<rparr>))"

definition EG_performSecurityAnalysis ::
  "Host \<Rightarrow> EnvGuardConfig \<Rightarrow> EnvVariable list \<Rightarrow> string + findings"
where
  "EG_performSecurityAnalysis h config vs =
     SA_analyze h
       (newSecurityAnalyzer (case cfg_securityRules config of None \<Rightarrow> [] | Some rs \<Rightarrow> rs)) vs"

text \<open>
  The \<open>try\<close> block of \<open>validate\<close>: \<open>Inl\<close> is the message of an error thrown in it,
  \<open>Inr\<close> the result it returns.
\<close>

definition EG_validateBody :: "Host \<Rightarrow> EnvGuardConfig \<Rightarrow> string + ValidationResult" where
  "EG_validateBody h config =
     (let file = (if truthy (envFile config) then the (envFile config) else ''.env'') in
      case parseFile h file of
        Inl e \<Rightarrow> Inl e
      | Inr parsedEnv \<Rightarrow>
          if length (parseErrors parsedEnv) > 0
          then Inr (EG_createErrorResult (parseErrors parsedEnv) (totalElapsed h))
          else
            (case EG_determineValidationMode config of
               (mode, config') \<Rightarrow>
                 (case (if mode = ''schema'' then EG_validateWithSchema h config' (variables parsedEnv)
                        else if mode = ''example''
                        then EG_validateWithExample h config' (variables parsedEnv)
                        else if mode = ''both''
                        then EG_validateWithBoth h config' (variables parsedEnv)
                        else Inl (''Unknown validation mode: '' @ mode)) of
                    Inl e \<Rightarrow> Inl e
                  | Inr result \<Rightarrow>
                      (case EG_performSecurityAnalysis h config' (variables parsedEnv) of
                         Inl e \<Rightarrow> Inl e
                       | Inr (secErrors, secWarnings, secInfo) \<Rightarrow>
                           Inr (result
                                 \<lparr>errors := errors result @ secErrors,
                                  warnings := warnings result @ secWarnings,
                                  info := info result @ secInfo,
                                  summary := (summary result)
                                    \<lparr>securityIssues := length secErrors,
                                     validationTime := totalElapsed h\<rparr>,
                                  isValid := (length (errors result @ secErrors) = 0)\<rparr>)))))"

definition EG_validate :: "Host \<Rightarrow> EnvGuardConfig \<Rightarrow> ValidationResult" where
  "EG_validate h config =
     (case EG_validateBody h config of
        Inr result \<Rightarrow> result
      | Inl m \<Rightarrow>
          EG_createErrorResult
            [\<lparr>pe_lineNumber = 0, pe_message = ''Validation failed: '' @ m, pe_line = []\<rparr>]
            (totalElapsed h))"

section \<open>Notions used in the properties\<close>

text \<open>The map that \<open>validate\<close> builds from a list of records: \<open>new Map(vs.map(v => [v.key, v]))\<close>.\<close>

definition EV_variableMap :: "EnvVariable list \<Rightarrow> (string \<times> EnvVariable) list" where
  "EV_variableMap vs = newMap (map (\<lambda>v. (key v, v)) vs)"

text \<open>
  The condition under which \<open>validateEmptyValues\<close> warns about a record: the reference
  has the key, the observed value trims to the empty string, and the reference value is
  neither empty nor a placeholder.
\<close>

definition emptyAgainstExample :: "(string \<times> EnvVariable) list \<Rightarrow> EnvVariable \<Rightarrow> bool" where
  "emptyAgainstExample exampleMap variable =
     (case mapGet exampleMap (key variable) of
        None \<Rightarrow> False
      | Some exampleVar \<Rightarrow>
          trim (val variable) = [] \<and> trim (val exampleVar) \<noteq> []
            \<and> \<not> EV_isPlaceholderValue (val exampleVar))"

text \<open>The records that the assignment lines of a numbered list of lines give, in order.\<close>

definition recordsOfLines :: "(nat \<times> string) list \<Rightarrow> EnvVariable list" where
  "recordsOfLines ls =
     concat (map (\<lambda>(i, l). if lineKind l = Assignment
                             then (case parseVariableLine l i of Inr v \<Rightarrow> [v] | Inl e \<Rightarrow> [])
                             else []) ls)"

text \<open>
  Inputs of the closed examples: the record of an unquoted assignment without comment,
  and an example validator without ignore patterns.
\<close>

definition plainVariable :: "string \<Rightarrow> string \<Rightarrow> nat \<Rightarrow> EnvVariable" where
  "plainVariable k v n = \<lparr>key = k, val = v, lineNumber = n, isQuoted = False, hasComment = None\<rparr>"

definition exampleOf :: "EnvVariable list \<Rightarrow> ExampleValidator" where
  "exampleOf vs = \<lparr>exampleVariables = vs, ev_ignorePatterns = []\<rparr>"

text \<open>The error that \<open>validateVariableValues\<close> pushes for an empty value.\<close>

definition cannotBeEmpty :: "EnvVariable \<Rightarrow> VariableSchema \<Rightarrow> ValidationError" where
  "cannotBeEmpty variable s =
     \<lparr>f_type = ''invalid_format'', f_variable = key variable,
      f_message = ''Variable '' @ quoted (key variable) @ '' cannot be empty'',
      f_lineNumber = Some (lineNumber variable),
      f_suggestion = exampleSuggestion s, f_severity = ''error''\<rparr>"

text \<open>
  More inputs of the closed examples: a host that reads the given files, the
  configuration without any field, a schema with the one variable \<open>PORT\<close>, a host with
  the files \<open>.env\<close> (holding \<open>PORT=\<close>), \<open>.env.example\<close> and \<open>schema.json\<close>, and the
  configuration that names the last two.
\<close>

definition fileHost :: "(string \<times> string) list \<Rightarrow> Host" where
  "fileHost files =
     plainHost\<lparr>readFile := (\<lambda>p. case map_of files p of None \<Rightarrow> Inl ''ENOENT'' | Some c \<Rightarrow> Inr c)\<rparr>"

definition defaultConfig :: EnvGuardConfig where
  "defaultConfig = \<lparr>schemaFile = None, exampleFile = None, envFile = None,
                     cfg_ignorePatterns = None, cfg_securityRules = None\<rparr>"

definition portSchema :: EnvSchema where
  "portSchema =
     \<lparr>schema_variables =
        [(''PORT'', \<lparr>required = True, vtype = Some ''number'', pattern = Some ''^[0-9]+$'',
                    description = None, example = Some ''3000'', allowEmpty = False,
                    deprecated = False, alternatives = None\<rparr>)],
      rules = None, ignorePatterns = None\<rparr>"

definition demoHost :: Host where
  "demoHost =
     (fileHost [(''.env'', ''PORT=''), (''.env.example'', ''PORT=3000''), (''schema.json'', ''{}'')])
       \<lparr>extname := (\<lambda>p. ''.json''), parseJsonSchema := (\<lambda>c. Inr portSchema)\<rparr>"

definition bothConfig :: EnvGuardConfig where
  "bothConfig = defaultConfig\<lparr>schemaFile := Some ''schema.json'', exampleFile := Some ''.env.example''\<rparr>"

definition portEmptyError :: ValidationError where
  "portEmptyError =
     \<lparr>f_type = ''invalid_format'', f_variable = ''PORT'',
      f_message = ''Variable '' @ quoted ''PORT'' @ '' cannot be empty'',
      f_lineNumber = Some 1, f_suggestion = Some ''Example: 3000'', f_severity = ''error''\<rparr>"

definition portEmptyWarning :: ValidationWarning where
  "portEmptyWarning =
     \<lparr>f_type = ''unused_variable'', f_variable = ''PORT'',
      f_message = ''Variable '' @ quoted ''PORT'' @ '' is empty but has a value in example'',
      f_lineNumber = Some 1, f_suggestion = Some ''Consider setting a value. Example: 3000'',
      f_severity = ''warning''\<rparr>"

definition portSummary :: "nat \<Rightarrow> ValidationSummary" where
  "portSummary unused =
     \<lparr>totalVariables = 1, requiredVariables = 1, missingVariables = 0,
      unusedVariables = unused, securityIssues = 0, validationTime = 0\<rparr>"

section \<open>Properties of the line parser\<close>

lemma parseVariableLine_Inl:
  "parseVariableLine l n = Inl e \<Longrightarrow> assignmentMatch (trim l) = None \<and> pe_lineNumber e = n"
  by (auto simp: parseVariableLine_def Let_def formatError_def assignmentMatch_def
      split: option.splits prod.splits list.splits if_splits)

lemma parseVariableLine_Inr:
  "parseVariableLine l n = Inr v \<Longrightarrow> assignmentMatch (trim l) \<noteq> None \<and> lineNumber v = n"
  by (auto simp: parseVariableLine_def Let_def split: option.splits prod.splits if_splits)

lemma parseLines_emptyLines:
  "emptyLines (parseLines ls n acc) =
     emptyLines acc @ [i. (i, l) \<leftarrow> enumerate n ls, lineKind l = Blank]"
  by (induction ls arbitrary: n acc)
     (auto simp: Let_def lineKind_def split: sum.splits)

lemma parseLines_comments:
  "comments (parseLines ls n acc) =
     comments acc @ [trim (drop 1 (trim l)). (i, l) \<leftarrow> enumerate n ls, lineKind l = Comment]"
  by (induction ls arbitrary: n acc)
     (auto simp: Let_def lineKind_def split: sum.splits)

lemma parseLines_variables:
  "map lineNumber (variables (parseLines ls n acc)) =
     map lineNumber (variables acc) @ [i. (i, l) \<leftarrow> enumerate n ls, lineKind l = Assignment]"
  by (induction ls arbitrary: n acc)
     (auto simp: Let_def lineKind_def split: sum.splits dest: parseVariableLine_Inl parseVariableLine_Inr)

lemma parseLines_parseErrors:
  "map pe_lineNumber (parseErrors (parseLines ls n acc)) =
     map pe_lineNumber (parseErrors acc) @ [i. (i, l) \<leftarrow> enumerate n ls, lineKind l = Malformed]"
  by (induction ls arbitrary: n acc)
     (auto simp: Let_def lineKind_def split: sum.splits dest: parseVariableLine_Inl parseVariableLine_Inr)

lemma parseLines_count:
  "length (variables (parseLines ls n acc)) + length (comments (parseLines ls n acc))
     + length (emptyLines (parseLines ls n acc)) + length (parseErrors (parseLines ls n acc))
   = length (variables acc) + length (comments acc) + length (emptyLines acc)
     + length (parseErrors acc) + length ls"
  by (induction ls arbitrary: n acc) (auto simp: Let_def split: sum.splits)

text \<open>
  C3. For every input string, each of the lines that splitting on \<open>\r?\n\<close> yields goes
  to exactly one of the four collections: the four lengths add up to the number of
  lines; the blank line numbers, the line numbers of the variable records and those of
  the parse errors are the 1-based indices of the blank, assignment and malformed lines,
  in order; and the comments are the texts of the comment lines, in order. \<open>parseContent\<close> has no
  \<open>throw\<close> and calls nothing that throws on a string, so the model is a total function
  to \<open>ParsedEnvFile\<close>.
\<close>

theorem parseContent_classifies_every_line:
  "let ls = enumerate 1 (splitLines content); p = parseContent content in
     length (variables p) + length (comments p) + length (emptyLines p)
       + length (parseErrors p) = length (splitLines content)
   \<and> emptyLines p = [i. (i, l) \<leftarrow> ls, lineKind l = Blank]
   \<and> comments p = [trim (drop 1 (trim l)). (i, l) \<leftarrow> ls, lineKind l = Comment]
   \<and> map lineNumber (variables p) = [i. (i, l) \<leftarrow> ls, lineKind l = Assignment]
   \<and> map pe_lineNumber (parseErrors p) = [i. (i, l) \<leftarrow> ls, lineKind l = Malformed]"
proof -
  let ?e = "\<lparr>variables = [], comments = [], emptyLines = [], parseErrors = []\<rparr>"
  let ?p = "parseLines (splitLines content) 1 ?e"
  have "length (variables ?p) + length (comments ?p) + length (emptyLines ?p)
          + length (parseErrors ?p) = length (splitLines content)"
    using parseLines_count[of "splitLines content" 1 ?e] by simp
  moreover have "emptyLines ?p = [i. (i, l) \<leftarrow> enumerate 1 (splitLines content), lineKind l = Blank]"
    by (simp only: parseLines_emptyLines) simp
  moreover have "comments ?p
      = [trim (drop 1 (trim l)). (i, l) \<leftarrow> enumerate 1 (splitLines content), lineKind l = Comment]"
    by (simp only: parseLines_comments) simp
  moreover have "map lineNumber (variables ?p)
      = [i. (i, l) \<leftarrow> enumerate 1 (splitLines content), lineKind l = Assignment]"
    by (simp only: parseLines_variables) simp
  moreover have "map pe_lineNumber (parseErrors ?p)
      = [i. (i, l) \<leftarrow> enumerate 1 (splitLines content), lineKind l = Malformed]"
    by (simp only: parseLines_parseErrors) simp
  ultimately show ?thesis
    unfolding Let_def parseContent_def by blast
qed

theorem parseContent_classifies_every_line_witness:
  "parseContent (''A=1'' @ [LF] @ [LF] @ ''# c'' @ [CR, LF] @ ''bad line'') =
     \<lparr>variables = [\<lparr>key = ''A'', val = ''1'', lineNumber = 1, isQuoted = False, hasComment = None\<rparr>],
      comments = [''c''], emptyLines = [2],
      parseErrors = [\<lparr>pe_lineNumber = 4, pe_message = ''Invalid variable assignment format'',
                      pe_line = ''bad line''\<rparr>]\<rparr>
   \<and> length (splitLines (''A=1'' @ [LF] @ [LF] @ ''# c'' @ [CR, LF] @ ''bad line'')) = 4"
  using parseContent_classifies_every_line [of "''A=1'' @ [LF] @ [LF] @ ''# c'' @ [CR, LF] @ ''bad line''"]
  by code_simp

lemma trim_id_iff: "trim s = s \<longleftrightarrow> (s = [] \<or> (\<not> is_ws (hd s) \<and> \<not> is_ws (last s)))"
proof (cases s)
  case Nil
  then show ?thesis by (simp add: trim_def)
next
  case (Cons c cs)
  show ?thesis
  proof
    assume t: "trim s = s"
    have a: "\<not> is_ws (hd s)"
    proof
      assume w: "is_ws (hd s)"
      have "length (trim s) \<le> length (dropWhile is_ws s)"
        unfolding trim_def using length_dropWhile_le[of is_ws "rev (dropWhile is_ws s)"] by simp
      also have "\<dots> < length s" using w Cons by (simp add: length_dropWhile_le le_imp_less_Suc)
      finally show False using t by simp
    qed
    have b: "\<not> is_ws (last s)"
    proof
      assume w: "is_ws (last s)"
      from a Cons have d: "dropWhile is_ws s = s" by simp
      have ne: "s \<noteq> []" using Cons by simp
      have "rev s \<noteq> []" "is_ws (hd (rev s))" using w ne by (simp_all only: hd_rev rev_is_Nil_conv not_False_eq_True)
      then have "length (dropWhile is_ws (rev s)) < length (rev s)"
        by (cases "rev s") (simp_all add: length_dropWhile_le le_imp_less_Suc)
      then have "length (trim s) < length s" unfolding trim_def d by simp
      then show False using t by simp
    qed
    from a b show "s = [] \<or> (\<not> is_ws (hd s) \<and> \<not> is_ws (last s))" by simp
  next
    assume "s = [] \<or> (\<not> is_ws (hd s) \<and> \<not> is_ws (last s))"
    then have a: "\<not> is_ws (hd s)" and b: "\<not> is_ws (last s)" using Cons by auto
    from a Cons have d: "dropWhile is_ws s = s" by simp
    have ne: "s \<noteq> []" using Cons by simp
    have "rev s \<noteq> []" "\<not> is_ws (hd (rev s))" using b ne by (simp_all only: hd_rev rev_is_Nil_conv not_False_eq_True)
    then have "dropWhile is_ws (rev s) = rev s" by (cases "rev s") simp_all
    then show "trim s = s" unfolding trim_def d by simp
  qed
qed

lemma splitLines_append_LF:
  "LF \<notin> set l \<Longrightarrow> (l = [] \<or> last l \<noteq> CR) \<Longrightarrow> splitLines (l @ LF # r) = l # splitLines r"
proof (induction l rule: splitLines.induct)
  case 1
  then show ?case by (cases r) (simp_all)
next
  case (2 c)
  then show ?case by (cases r) (auto simp: LF_def CR_def)
next
  case (3 c d cs)
  then show ?case by (auto simp: LF_def CR_def)
qed

lemma splitLines_single:
  "LF \<notin> set l \<Longrightarrow> splitLines l = [l]"
  by (induction l rule: splitLines.induct) (auto simp: LF_def CR_def)

lemma splitLines_join:
  "ls \<noteq> [] \<Longrightarrow> \<forall>l \<in> set ls. LF \<notin> set l \<and> (l = [] \<or> last l \<noteq> CR)
     \<Longrightarrow> splitLines (join [LF] ls) = ls"
proof (induction ls)
  case Nil
  then show ?case by simp
next
  case (Cons x xs)
  show ?case
  proof (cases xs)
    case Nil
    with Cons.prems show ?thesis by (simp add: splitLines_single)
  next
    case (Cons y ys)
    with Cons.prems Cons.IH show ?thesis by (simp add: splitLines_append_LF)
  qed
qed


lemma ident_char_facts:
  "is_ident_char c \<Longrightarrow> \<not> is_ws c \<and> c \<noteq> CHR ''='' \<and> c \<noteq> HASH \<and> c \<noteq> LF"
  "is_ident_start c \<Longrightarrow> \<not> is_ws c \<and> c \<noteq> CHR ''='' \<and> c \<noteq> HASH \<and> c \<noteq> LF"
  by (auto simp: is_ident_char_def is_ident_start_def is_upper_def is_lower_def is_digit_def
      is_ws_def HASH_def LF_def)

lemma not_ident_eq: "\<not> is_ident_char (CHR ''='')" "\<not> is_ws (CHR ''='')" "\<not> is_ws DQUOTE"
  "\<not> is_lt DQUOTE" "DQUOTE \<noteq> SQUOTE" "DQUOTE \<noteq> HASH" "CHR ''='' \<noteq> HASH" "CHR ''='' \<noteq> LF" "DQUOTE \<noteq> LF"
  "CHR ''='' \<noteq> CR" "DQUOTE \<noteq> CR"
  by (simp_all add: is_ident_char_def is_upper_def is_lower_def is_digit_def is_ws_def
      DQUOTE_def SQUOTE_def HASH_def is_lt_def LF_def CR_def)

lemma replace2_absent: "a \<notin> set s \<Longrightarrow> replace2 a b r s = s"
  by (induction a b r s rule: replace2.induct) auto

lemma quotedScan_simple:
  "q \<notin> set xs \<Longrightarrow> \<not> list_ex is_lt xs \<Longrightarrow> quotedScan q seen (xs @ [q]) = Some (seen @ xs, None)"
  by (induction xs arbitrary: seen) (auto simp: commentTail_def)

lemma simpleValue_facts:
  assumes "simpleValue v"
  shows "SQUOTE \<notin> set v" "DQUOTE \<notin> set v" "HASH \<notin> set v" "BACKSLASH \<notin> set v" "LF \<notin> set v"
    "trim v = v" "v \<noteq> [] \<Longrightarrow> \<not> is_ws (hd v)" "v \<noteq> [] \<Longrightarrow> \<not> is_ws (last v)"
    "dropWhile is_ws v = v"
proof -
  from assms show "SQUOTE \<notin> set v" "DQUOTE \<notin> set v" "HASH \<notin> set v" "BACKSLASH \<notin> set v"
    "LF \<notin> set v" and t: "trim v = v"
    by (simp_all add: simpleValue_def)
  from t show h: "v \<noteq> [] \<Longrightarrow> \<not> is_ws (hd v)" and "v \<noteq> [] \<Longrightarrow> \<not> is_ws (last v)"
    by (simp_all add: trim_id_iff)
  from h show "dropWhile is_ws v = v" by (cases v) simp_all
qed

lemma processQuotes_unquoted:
  assumes "simpleValue v"
  shows "processQuotes v = (v, False)"
proof -
  have a: "SQUOTE \<notin> set v" "DQUOTE \<notin> set v" "trim v = v"
    using assms by (simp_all add: simpleValue_def)
  have "\<not> startsWith [SQUOTE] v" using a(1) by (cases v) (auto simp: startsWith_def)
  moreover have "\<not> startsWith [DQUOTE] v" using a(2) by (cases v) (auto simp: startsWith_def)
  ultimately show ?thesis by (simp add: processQuotes_def a(3))
qed

lemma processQuotes_quoted:
  assumes "BACKSLASH \<notin> set v"
  shows "processQuotes (DQUOTE # v @ [DQUOTE]) = (v, True)"
proof -
  have t: "trim (DQUOTE # v @ [DQUOTE]) = DQUOTE # v @ [DQUOTE]"
    by (simp add: trim_id_iff not_ident_eq)
  show ?thesis
    unfolding processQuotes_def t Let_def
    using assms by (simp add: startsWith_def endsWith_def not_ident_eq replace2_absent butlast_append)
qed

lemma extract_unquoted:
  assumes "simpleValue v"
  shows "extractValueAndComment v = (v, None)"
proof -
  have a: "SQUOTE \<notin> set v" "DQUOTE \<notin> set v" "HASH \<notin> set v" "trim v = v"
    using assms by (simp_all add: simpleValue_def)
  have "quotedMatch v = None"
    using a(1,2) by (cases v) (auto simp: quotedMatch_def)
  then show ?thesis
    by (simp add: extractValueAndComment_def a(3,4))
qed

lemma extract_quoted:
  assumes "DQUOTE \<notin> set v" "\<not> list_ex is_lt v"
  shows "extractValueAndComment (DQUOTE # v @ [DQUOTE]) = (DQUOTE # v @ [DQUOTE], None)"
proof -
  have "quotedScan DQUOTE [] (v @ [DQUOTE]) = Some (v, None)"
    using quotedScan_simple[OF assms, of "[]"] by simp
  then have "quotedMatch (DQUOTE # v @ [DQUOTE]) = Some (DQUOTE, v, None)"
    by (simp add: quotedMatch_def)
  then show ?thesis
    by (simp add: extractValueAndComment_def)
qed


lemma assignmentMatch_rendered:
  assumes "is_ident_start c" "list_all is_ident_char cs"
    and "body = [] \<or> \<not> is_ws (hd body)" "\<not> list_ex is_lt body"
  shows "assignmentMatch (c # cs @ CHR ''='' # body) = Some (c # cs, body)"
proof -
  have all: "\<And>x. x \<in> set cs \<Longrightarrow> is_ident_char x"
    using assms(2) by (simp add: list_all_iff)
  have t: "takeWhile is_ident_char (cs @ CHR ''='' # body) = cs"
    using takeWhile_append2[of cs is_ident_char "CHR ''='' # body"] all
    by (simp add: not_ident_eq)
  have d: "dropWhile is_ident_char (cs @ CHR ''='' # body) = CHR ''='' # body"
    using dropWhile_append2[of cs is_ident_char "CHR ''='' # body"] all
    by (simp add: not_ident_eq)
  have b: "dropWhile is_ws body = body"
    using assms(3) by (cases body) auto
  show ?thesis
    unfolding assignmentMatch_def
    using assms(1,4) by (simp add: t d b not_ident_eq)
qed

lemma parseVariableLine_render:
  assumes "renderable v"
  shows "parseVariableLine (renderVariable v) n = Inr (v\<lparr>lineNumber := n\<rparr>)"
    and "trim (renderVariable v) = renderVariable v"
    and "renderVariable v \<noteq> []"
    and "\<not> startsWith [HASH] (renderVariable v)"
    and "LF \<notin> set (renderVariable v)"
    and "last (renderVariable v) \<noteq> CR"
proof -
  from assms have id: "isIdentifier (key v)" and hc: "hasComment v = None"
    and sv: "simpleValue (val v)" and cr: "CR \<notin> set (val v)"
    by (simp_all add: renderable_def)
  from id obtain c cs where k: "key v = c # cs" and c: "is_ident_start c"
    and cs: "list_all is_ident_char cs"
    by (auto simp: isIdentifier_def split: list.splits)
  have csx: "\<And>x. x \<in> set cs \<Longrightarrow> is_ident_char x"
    using cs by (simp add: list_all_iff)
  note svf = simpleValue_facts[OF sv]
  define body where "body = (if isQuoted v then [DQUOTE] @ val v @ [DQUOTE] else val v)"
  have r: "renderVariable v = c # cs @ CHR ''='' # body"
    by (simp add: renderVariable_def k hc body_def)
  have nolt: "\<not> list_ex is_lt (val v)"
    using svf(5) cr by (auto simp: list_ex_iff is_lt_def)
  have b1: "body = [] \<or> \<not> is_ws (hd body)"
    using svf(7) by (auto simp: body_def not_ident_eq)
  have b2: "\<not> list_ex is_lt body"
    using nolt by (auto simp: body_def not_ident_eq)
  have b3: "\<not> is_ws (last (CHR ''='' # body))"
    using svf(8) by (auto simp: body_def not_ident_eq)
  have am: "assignmentMatch (renderVariable v) = Some (c # cs, body)"
    unfolding r by (rule assignmentMatch_rendered[OF c cs b1 b2])
  show t: "trim (renderVariable v) = renderVariable v"
    unfolding trim_id_iff r using c b3 by (simp add: ident_char_facts)
  have ev: "extractValueAndComment body = (body, None)"
    using extract_unquoted[OF sv] extract_quoted[OF svf(2) nolt] by (simp add: body_def)
  have pq: "processQuotes body = (val v, isQuoted v)"
    using processQuotes_unquoted[OF sv] processQuotes_quoted[OF svf(4)] by (simp add: body_def)
  have "parseVariableLine (renderVariable v) n
      = Inr \<lparr>key = c # cs, val = val v, lineNumber = n, isQuoted = isQuoted v, hasComment = None\<rparr>"
    unfolding parseVariableLine_def t Let_def am by (simp add: ev pq)
  also have "\<lparr>key = c # cs, val = val v, lineNumber = n, isQuoted = isQuoted v, hasComment = None\<rparr>
      = v\<lparr>lineNumber := n\<rparr>"
    using k hc by (cases v) simp
  finally show "parseVariableLine (renderVariable v) n = Inr (v\<lparr>lineNumber := n\<rparr>)" .
  show "renderVariable v \<noteq> []" by (simp add: r)
  show "\<not> startsWith [HASH] (renderVariable v)"
    using c by (auto simp: r startsWith_def ident_char_facts)
  have "c \<noteq> LF" using ident_char_facts(2)[OF c] by simp
  moreover have "LF \<notin> set cs" using csx ident_char_facts(1) by blast
  moreover have "LF \<notin> set body" using svf(5) not_ident_eq(9) by (auto simp: body_def)
  ultimately show "LF \<notin> set (renderVariable v)"
    using not_ident_eq(8) by (auto simp: r)
  have "\<not> is_ws (last (renderVariable v))"
    using b3 by (simp add: r)
  then show "last (renderVariable v) \<noteq> CR"
    by (auto simp: is_ws_def CR_def)
qed

lemma parseLines_rendered:
  assumes "\<forall>v \<in> set vs. renderable v"
  shows "parseLines (map renderVariable vs) n acc
     = acc\<lparr>variables := variables acc @ map (\<lambda>(i, v). v\<lparr>lineNumber := i\<rparr>) (enumerate n vs)\<rparr>"
  using assms
proof (induction vs arbitrary: n acc)
  case Nil
  then show ?case by simp
next
  case (Cons v vs)
  then have rv: "renderable v" and rest: "\<forall>v \<in> set vs. renderable v" by simp_all
  note f = parseVariableLine_render[OF rv]
  show ?case
    by (simp add: f Cons.IH[OF rest] Let_def)
qed

lemma renderVariable_lineNumber: "renderVariable (v\<lparr>lineNumber := i\<rparr>) = renderVariable v"
  by (simp add: renderVariable_def)

lemma map_render_enumerate:
  "map renderVariable (map (\<lambda>(i, v). v\<lparr>lineNumber := i\<rparr>) (enumerate n vs)) = map renderVariable vs"
  by (induction vs arbitrary: n) (simp_all add: renderVariable_lineNumber)

lemma parseContent_stringify:
  assumes "\<forall>v \<in> set vs. renderable v"
  shows "variables (parseContent (stringify vs))
           = map (\<lambda>(i, v). v\<lparr>lineNumber := i\<rparr>) (enumerate 1 vs)"
    and "parseErrors (parseContent (stringify vs)) = []"
proof -
  let ?e = "\<lparr>variables = [], comments = [], emptyLines = [], parseErrors = []\<rparr>"
  have "variables (parseContent (stringify vs))
           = map (\<lambda>(i, v). v\<lparr>lineNumber := i\<rparr>) (enumerate 1 vs)
     \<and> parseErrors (parseContent (stringify vs)) = []"
  proof (cases vs)
    case Nil
    then show ?thesis
      by (simp add: parseContent_def stringify_def trim_def)
  next
    case (Cons w ws)
    have "splitLines (join [LF] (map renderVariable vs)) = map renderVariable vs"
    proof (rule splitLines_join)
      show "map renderVariable vs \<noteq> []" using Cons by simp
      show "\<forall>l\<in>set (map renderVariable vs). LF \<notin> set l \<and> (l = [] \<or> last l \<noteq> CR)"
        using assms parseVariableLine_render(5,6) by auto
    qed
    then show ?thesis
      by (simp add: parseContent_def stringify_def parseLines_rendered[OF assms])
  qed
  then show "variables (parseContent (stringify vs))
           = map (\<lambda>(i, v). v\<lparr>lineNumber := i\<rparr>) (enumerate 1 vs)"
    and "parseErrors (parseContent (stringify vs)) = []" by simp_all
qed

text \<open>
  C4 (as amended). For every list of variable records whose keys match the identifier
  grammar, whose \<open>hasComment\<close> is unset and whose values hold no quote character, no
  \<open>#\<close>, no backslash, no newline, no carriage return and no leading or trailing white
  space, parsing the rendered text gives the same records back (with the line numbers
  1, 2, ...), without parse errors, so rendering them again yields the same text, the
  same key/value pairs and the same quoting flags.
\<close>

theorem stringify_parse_roundtrip:
  assumes "\<forall>v \<in> set vs. isIdentifier (key v) \<and> hasComment v = None \<and> simpleValue (val v)
             \<and> CR \<notin> set (val v)"
  shows "stringify (variables (parseContent (stringify vs))) = stringify vs
       \<and> map (\<lambda>v. (key v, val v, isQuoted v)) (variables (parseContent (stringify vs)))
           = map (\<lambda>v. (key v, val v, isQuoted v)) vs
       \<and> parseErrors (parseContent (stringify vs)) = []"
proof -
  from assms have r: "\<forall>v \<in> set vs. renderable v" by (simp add: renderable_def)
  note p = parseContent_stringify[OF r]
  have "stringify (variables (parseContent (stringify vs)))
      = stringify (map (\<lambda>(i, v). v\<lparr>lineNumber := i\<rparr>) (enumerate 1 vs))"
    by (simp only: p(1))
  also have "\<dots> = stringify vs"
    by (simp only: stringify_def map_render_enumerate)
  finally have "stringify (variables (parseContent (stringify vs))) = stringify vs" .
  moreover have "map (\<lambda>v. (key v, val v, isQuoted v)) (variables (parseContent (stringify vs)))
           = map (\<lambda>v. (key v, val v, isQuoted v)) vs"
    unfolding p(1) by (induction vs arbitrary: rule: rev_induct) (simp_all add: enumerate_append_eq)
  ultimately show ?thesis using p(2) by simp
qed


text \<open>
  C4 as stated, without the condition on carriage returns, fails: the value \<open>a\rb\<close>
  satisfies every condition of the claim, but the line \<open>K=a\rb\<close> is not split at the
  lone carriage return and \<open>(.*)$\<close> does not match over it, so the line is a parse error
  and no variable comes back.
\<close>

theorem roundtrip_counterexample:
  "isIdentifier (key crVariable) \<and> hasComment crVariable = None \<and> simpleValue (val crVariable)
   \<and> stringify [crVariable] = [CHR ''K'', CHR ''='', CHR ''a'', CR, CHR ''b'']
   \<and> variables (parseContent (stringify [crVariable])) = []
   \<and> stringify (variables (parseContent (stringify [crVariable]))) \<noteq> stringify [crVariable]"
  by code_simp

theorem stringify_parse_roundtrip_witness:
  "stringify (variables (parseContent (stringify
      [\<lparr>key = ''PORT'', val = ''3000'', lineNumber = 7, isQuoted = False, hasComment = None\<rparr>,
       \<lparr>key = ''NAME'', val = ''my app'', lineNumber = 9, isQuoted = True, hasComment = None\<rparr>])))
   = ''PORT=3000'' @ [LF] @ ''NAME='' @ [DQUOTE] @ ''my app'' @ [DQUOTE]"
  using stringify_parse_roundtrip [of
      "[\<lparr>key = ''PORT'', val = ''3000'', lineNumber = 7, isQuoted = False, hasComment = None\<rparr>,
        \<lparr>key = ''NAME'', val = ''my app'', lineNumber = 9, isQuoted = True, hasComment = None\<rparr>]"]
  by code_simp

section \<open>Placeholders and secrets\<close>

text \<open>
  C7. The example validator and the security analyzer are claimed to classify every
  string alike as a placeholder, \<open>todo\<close> and \<open>fixme\<close> included. The two copies of
  \<open>isPlaceholderValue\<close> differ: only the analyzer's list has \<open>/^todo$/i\<close> and
  \<open>/^fixme$/i\<close>, so the two disagree on these values.
\<close>

theorem placeholder_predicates_differ_on_todo:
  "\<not> EV_isPlaceholderValue ''todo'' \<and> SA_isPlaceholderValue ''todo''
   \<and> \<not> EV_isPlaceholderValue ''FIXME'' \<and> SA_isPlaceholderValue ''FIXME''"
  by code_simp

lemma rx_chr_consumes: "q \<in> set (rx_chr P p) \<Longrightarrow> Suc (length (snd q)) = length (snd p)"
  by (cases p) (auto simp: rx_chr_def split: list.splits if_splits)

lemma rx_many_consumes: "q \<in> set (rx_many P p) \<Longrightarrow> length (snd q) \<le> length (snd p)"
proof (induction P p rule: rx_many.induct)
  case (1 P prev)
  then show ?case by simp
next
  case (2 P prev c cs)
  then show ?case by (auto split: if_splits)
qed

lemma rx_rep_chr_consumes:
  "q \<in> set (rx_rep n (rx_chr P) p) \<Longrightarrow> length (snd q) + n = length (snd p)"
proof (induction n arbitrary: p)
  case 0
  then show ?case by (simp add: rx_eps_def)
next
  case (Suc n)
  then obtain r where r: "r \<in> set (rx_chr P p)" and q: "q \<in> set (rx_rep n (rx_chr P) r)"
    by (auto simp: rx_seq_def)
  from Suc.IH[OF q] rx_chr_consumes[OF r] show ?case by simp
qed

lemma rx_atLeast_consumes:
  "q \<in> set (rx_atLeast n P p) \<Longrightarrow> length (snd q) + n \<le> length (snd p)"
proof -
  assume "q \<in> set (rx_atLeast n P p)"
  then obtain r where r: "r \<in> set (rx_rep n (rx_chr P) p)" and q: "q \<in> set (rx_many P r)"
    by (auto simp: rx_atLeast_def rx_seq_def)
  from rx_rep_chr_consumes[OF r] rx_many_consumes[OF q] show ?thesis by simp
qed

lemma rx_testStart_atLeast:
  "rx_testStart (rx_seq (rx_atLeast n P) m) v \<Longrightarrow> n \<le> length v"
proof -
  assume "rx_testStart (rx_seq (rx_atLeast n P) m) v"
  then obtain r where "r \<in> set (rx_atLeast n P (None, v))"
    by (cases "rx_atLeast n P (None, v)") (auto simp: rx_testStart_def rx_seq_def)
  from rx_atLeast_consumes[OF this] show ?thesis by simp
qed

lemma secretPattern_length:
  assumes "p \<in> set secretPatterns" "rx_testStart (fst p) v"
  shows "32 \<le> length v"
proof -
  from assms(1) consider
      (base64) m where "fst p = rx_seq (rx_atLeast 40 base64Char) m"
    | (hex) m where "fst p = rx_seq (rx_atLeast 32 hexCharI) m"
    | (token) m where "fst p = rx_seq (rx_atLeast 32 tokenChar) m"
    by (auto simp: secretPatterns_def)
  then show ?thesis
  proof cases
    case base64
    with assms(2) have "40 \<le> length v" by (simp add: rx_testStart_atLeast)
    then show ?thesis by simp
  next
    case hex
    with assms(2) show ?thesis by (simp add: rx_testStart_atLeast)
  next
    case token
    with assms(2) show ?thesis by (simp add: rx_testStart_atLeast)
  qed
qed

lemma weakSecret_short: "SA_isWeakSecret v \<Longrightarrow> length v \<le> 11"
proof -
  assume w: "SA_isWeakSecret v"
  let ?ws = "[''secret'', ''password'', ''admin'', ''root'', ''user'', ''test'', ''dev'',
        ''development'', ''123456'', ''qwerty'', ''letmein'', ''changeme'', ''default'']"
  show ?thesis
  proof (cases "length v < 8")
    case True
    then show ?thesis by simp
  next
    case False
    with w have m: "toLowerCase v \<in> set ?ws" by (simp add: SA_isWeakSecret_def)
    have "\<forall>x \<in> set ?ws. length x \<le> 11" by simp
    with m have "length (toLowerCase v) \<le> 11" by blast
    then show ?thesis by (simp add: toLowerCase_def)
  qed
qed

lemma find_secretPattern:
  "find (\<lambda>p. rx_testStart (fst p) v) secretPatterns = Some p \<Longrightarrow> 32 \<le> length v"
  using secretPattern_length[of p v] by (auto simp: find_Some_iff in_set_conv_nth)

text \<open>
  C8 (as amended). The two findings of \<open>checkHardcodedSecrets\<close> exclude each other: at
  most one of the two arrays grows; the shape warning needs a value of at least 32
  characters, which is not a weak secret, and the weak-secret error needs a value of at
  most 11 characters. Each of them fires alone (see the witness).
\<close>

theorem hardcoded_secret_findings_exclusive:
  "SA_checkHardcodedSecrets variable errs warns = (errs', warns')
   \<Longrightarrow> (errs' = errs \<or> warns' = warns)
     \<and> (warns' \<noteq> warns \<longrightarrow> 32 \<le> length (val variable) \<and> \<not> SA_isWeakSecret (val variable))
     \<and> (errs' \<noteq> errs \<longrightarrow> SA_isWeakSecret (val variable) \<and> length (val variable) \<le> 11)"
proof -
  assume a: "SA_checkHardcodedSecrets variable errs warns = (errs', warns')"
  have w: "warns' \<noteq> warns \<Longrightarrow> 32 \<le> length (val variable)"
    using a find_secretPattern[of "val variable"]
    by (auto simp: SA_checkHardcodedSecrets_def Let_def split: if_splits option.splits)
  have e: "errs' \<noteq> errs \<Longrightarrow> SA_isWeakSecret (val variable)"
    using a by (auto simp: SA_checkHardcodedSecrets_def Let_def split: if_splits option.splits)
  from w e weakSecret_short[of "val variable"] show ?thesis by fastforce
qed

text \<open>
  C8 as stated fails: no variable makes \<open>checkHardcodedSecrets\<close> emit both the shape
  warning and the weak-secret error.
\<close>

theorem hardcoded_secret_findings_never_together:
  "\<not> (\<exists>variable. fst (SA_checkHardcodedSecrets variable [] []) \<noteq> []
                   \<and> snd (SA_checkHardcodedSecrets variable [] []) \<noteq> [])"
proof
  assume "\<exists>variable. fst (SA_checkHardcodedSecrets variable [] []) \<noteq> []
                   \<and> snd (SA_checkHardcodedSecrets variable [] []) \<noteq> []"
  then obtain variable where f: "fst (SA_checkHardcodedSecrets variable [] []) \<noteq> []"
    and s: "snd (SA_checkHardcodedSecrets variable [] []) \<noteq> []" by blast
  obtain errs' warns' where r: "SA_checkHardcodedSecrets variable [] [] = (errs', warns')"
    by (cases "SA_checkHardcodedSecrets variable [] []")
  have w: "32 \<le> length (val variable)"
    using r s find_secretPattern[of "val variable"]
    by (auto simp: SA_checkHardcodedSecrets_def Let_def split: if_splits option.splits)
  have e: "SA_isWeakSecret (val variable)"
    using r f by (auto simp: SA_checkHardcodedSecrets_def Let_def split: if_splits option.splits)
  from w weakSecret_short[OF e] show False by simp
qed

section \<open>Properties of the example validator\<close>

lemma map_of_mapSet: "map_of (mapSet m k v) = (map_of m)(k \<mapsto> v)"
  by (induction m k v rule: mapSet.induct) (auto simp: fun_eq_iff)

lemma keys_mapSet:
  "map fst (mapSet m k v) = (if k \<in> set (map fst m) then map fst m else map fst m @ [k])"
  by (induction m k v rule: mapSet.induct) auto

lemma foldl_mapSet_map_of:
  "map_of (foldl (\<lambda>m (k, v). mapSet m k v) m es) = map_of m ++ map_of (rev es)"
proof (induction es arbitrary: m)
  case Nil
  then show ?case by simp
next
  case (Cons e es)
  obtain k v where e: "e = (k, v)" by (cases e)
  have "map_of (mapSet m k v) ++ map_of (rev es) = map_of m ++ (map_of [(k, v)] ++ map_of (rev es))"
    by (simp add: map_of_mapSet fun_eq_iff map_add_def split: option.splits)
  then show ?case
    by (simp add: Cons.IH e)
qed

lemma foldl_mapSet_keys:
  "distinct (map fst m) \<Longrightarrow> distinct (map fst (foldl (\<lambda>m (k, v). mapSet m k v) m es))
     \<and> set (map fst (foldl (\<lambda>m (k, v). mapSet m k v) m es)) = set (map fst m) \<union> set (map fst es)"
proof (induction es arbitrary: m)
  case Nil
  then show ?case by simp
next
  case (Cons e es)
  obtain k v where e: "e = (k, v)" by (cases e)
  have d: "distinct (map fst (mapSet m k v))"
    using Cons.prems by (simp add: keys_mapSet)
  have s: "set (map fst (mapSet m k v)) = insert k (set (map fst m))"
    by (auto simp: keys_mapSet)
  from Cons.IH[OF d] s show ?case by (simp add: e)
qed

lemma newMap_get: "mapGet (newMap es) k = map_of (rev es) k"
  by (simp add: mapGet_def newMap_def foldl_mapSet_map_of)

lemma newMap_has: "mapHas (newMap es) k \<longleftrightarrow> k \<in> set (map fst es)"
  using map_of_eq_None_iff[of "rev es" k]
  by (simp add: mapHas_def newMap_def foldl_mapSet_map_of)

lemma newMap_keys: "distinct (mapKeys (newMap es))" "set (mapKeys (newMap es)) = set (map fst es)"
  using foldl_mapSet_keys[of "[]" es] by (simp_all add: mapKeys_def newMap_def)

lemma newMap_get_iff: "mapGet (newMap es) k \<noteq> None \<longleftrightarrow> k \<in> set (mapKeys (newMap es))"
  using map_of_eq_None_iff[of "rev es" k] by (simp add: newMap_get newMap_keys)

lemma last_record_wins:
  "map_of (rev (map (\<lambda>v. (key v, v)) vs)) k = Some v \<Longrightarrow> v = last (filter (\<lambda>v. key v = k) vs)"
  by (induction vs rule: rev_induct) (auto split: if_splits)

lemma EV_missing_append:
  "EV_validateMissingVariables h this ks vm em errs = Inr r
   \<Longrightarrow> \<exists>new. r = errs @ new
        \<and> (\<forall>e \<in> set new. f_type e = ''missing_required'' \<and> \<not> mapHas vm (f_variable e))"
proof (induction ks arbitrary: errs)
  case Nil
  then show ?case by simp
next
  case (Cons k ks)
  then show ?case
    by (fastforce split: if_splits sum.splits option.splits)
qed

lemma EV_unused_append:
  "EV_validateUnusedVariables h this ks exKeys vm warns = Inr r
   \<Longrightarrow> \<exists>new. r = warns @ new
        \<and> set (map f_variable new) \<subseteq> set ks
        \<and> (distinct ks \<longrightarrow> distinct (map f_variable new))
        \<and> (\<forall>w \<in> set new. f_type w = ''unused_variable'' \<and> f_variable w \<notin> set exKeys
              \<and> (\<exists>v. mapGet vm (f_variable w) = Some v \<and> f_lineNumber w = Some (lineNumber v)))"
proof (induction ks arbitrary: warns)
  case Nil
  then show ?case by simp
next
  case (Cons k ks)
  show ?case
  proof (cases "k \<in> set exKeys")
    case True
    with Cons.prems have "EV_validateUnusedVariables h this ks exKeys vm warns = Inr r" by simp
    from Cons.IH[OF this] show ?thesis by auto
  next
    case False
    show ?thesis
    proof (cases "EV_shouldIgnoreVariable h this k")
      case (Inl e)
      with False Cons.prems show ?thesis by simp
    next
      case (Inr ignored)
      show ?thesis
      proof (cases ignored)
        case True
        with False Inr Cons.prems
        have "EV_validateUnusedVariables h this ks exKeys vm warns = Inr r" by simp
        from Cons.IH[OF this] show ?thesis by auto
      next
        case ni: False
        show ?thesis
        proof (cases "mapGet vm k")
          case None
          with False Inr ni Cons.prems show ?thesis by simp
        next
          case (Some variable)
          let ?w = "\<lparr>f_type = ''unused_variable'', f_variable = k,
                          f_message = ''Variable '' @ quoted k @ '' is not present in .env.example'',
                          f_lineNumber = Some (lineNumber variable),
                          f_suggestion =
                            Some ''Add this variable to .env.example or remove it if not needed'',
                          f_severity = ''warning''\<rparr>"
          from False Inr ni Some Cons.prems
          have "EV_validateUnusedVariables h this ks exKeys vm (warns @ [?w]) = Inr r" by simp
          from Cons.IH[OF this] obtain new where n: "r = (warns @ [?w]) @ new"
            "set (map f_variable new) \<subseteq> set ks"
            "distinct ks \<longrightarrow> distinct (map f_variable new)"
            "\<forall>w \<in> set new. f_type w = ''unused_variable'' \<and> f_variable w \<notin> set exKeys
              \<and> (\<exists>v. mapGet vm (f_variable w) = Some v \<and> f_lineNumber w = Some (lineNumber v))"
            by blast
          show ?thesis
          proof (intro exI[of _ "?w # new"] conjI)
            show "r = warns @ ?w # new" using n(1) by simp
            show "set (map f_variable (?w # new)) \<subseteq> set (k # ks)" using n(2) by auto
            show "distinct (k # ks) \<longrightarrow> distinct (map f_variable (?w # new))"
              using n(2,3) by auto
            show "\<forall>w \<in> set (?w # new). f_type w = ''unused_variable'' \<and> f_variable w \<notin> set exKeys
              \<and> (\<exists>v. mapGet vm (f_variable w) = Some v \<and> f_lineNumber w = Some (lineNumber v))"
              using n(4) False Some by auto
          qed
        qed
      qed
    qed
  qed
qed

lemma EV_unused_none:
  "\<forall>k \<in> set ks. k \<in> set exKeys \<Longrightarrow> EV_validateUnusedVariables h this ks exKeys vm warns = Inr warns"
  by (induction ks) auto

lemma EV_empty_append:
  "EV_validateEmptyValues vs em warns = warns @ EV_validateEmptyValues vs em []"
proof (induction vs arbitrary: warns)
  case Nil
  then show ?case by simp
next
  case (Cons v vs)
  show ?case
    using Cons.IH[of "warns @ [x]" for x] Cons.IH[of "[x]" for x] Cons.IH[of warns]
    by (simp split: option.splits)
qed

lemma EV_empty_props:
  "(\<forall>w \<in> set (EV_validateEmptyValues vs em []).
       f_type w = ''unused_variable'' \<and> mapGet em (f_variable w) \<noteq> None)
   \<and> length (EV_validateEmptyValues vs em []) = length (filter (emptyAgainstExample em) vs)"
proof (induction vs)
  case Nil
  then show ?case by simp
next
  case (Cons v vs)
  show ?case
    using Cons.IH EV_empty_append[of vs em "[x]" for x]
    by (auto simp: emptyAgainstExample_def split: option.splits)
qed

lemma EV_formats_append:
  "EV_validateValueFormats h vs em warns infos
     = (warns @ fst (EV_validateValueFormats h vs em [] []),
        infos @ snd (EV_validateValueFormats h vs em [] []))"
proof (induction vs arbitrary: warns infos)
  case Nil
  then show ?case by simp
next
  case (Cons v vs)
  note ih = Cons.IH
  show ?case
  proof (cases "mapGet em (key v)")
    case None
    then show ?thesis using ih[of warns infos] by simp
  next
    case (Some ev)
    show ?thesis
    proof (cases "trim (val v) = []")
      case True
      then show ?thesis using Some ih[of warns infos] by simp
    next
      case False
      define W where "W = (case EV_detectFormatMismatch h v ev of
                      None \<Rightarrow> []
                    | Some (msg, sugg) \<Rightarrow>
                          [\<lparr>f_type = ''weak_pattern'', f_variable = key v,
                            f_message = msg, f_lineNumber = Some (lineNumber v),
                            f_suggestion = Some sugg, f_severity = ''warning''\<rparr>])"
      define I where "I = (case EV_getFormatInfo v ev of
                      None \<Rightarrow> []
                    | Some formatInfo \<Rightarrow>
                        if formatInfo = [] then []
                        else
                            [\<lparr>f_type = ''info'', f_variable = key v,
                              f_message = formatInfo, f_lineNumber = Some (lineNumber v),
                              f_suggestion = None, f_severity = ''info''\<rparr>])"
      have step: "EV_validateValueFormats h (v # vs) em ws is
                    = EV_validateValueFormats h vs em (ws @ W) (is @ I)" for ws "is"
        using Some False by (simp add: W_def I_def Let_def split: option.splits prod.splits)
      show ?thesis
        unfolding step using ih[of "warns @ W" "infos @ I"] ih[of "[] @ W" "[] @ I"]
        by simp
    qed
  qed
qed

lemma EV_formats_props:
  "(\<forall>w \<in> set (fst (EV_validateValueFormats h vs em [] [])). f_type w = ''weak_pattern'')
   \<and> (\<forall>v ev. v \<in> set vs \<and> mapGet em (key v) = Some ev \<and> trim (val v) \<noteq> []
          \<and> EV_isPlaceholderValue (val ev) \<longrightarrow>
        \<lparr>f_type = ''info'', f_variable = key v,
          f_message = ''Variable '' @ quoted (key v) @ '' uses placeholder in example: '' @ val ev,
          f_lineNumber = Some (lineNumber v), f_suggestion = None, f_severity = ''info''\<rparr>
          \<in> set (snd (EV_validateValueFormats h vs em [] [])))"
proof (induction vs)
  case Nil
  then show ?case by simp
next
  case (Cons v vs)
  have a: "EV_validateValueFormats h vs em ws is
     = (ws @ fst (EV_validateValueFormats h vs em [] []),
        is @ snd (EV_validateValueFormats h vs em [] []))" for ws "is"
    by (rule EV_formats_append)
  show ?case
  proof (cases "mapGet em (key v)")
    case None
    then show ?thesis using Cons.IH by auto
  next
    case (Some ev)
    show ?thesis
    proof (cases "trim (val v) = []")
      case True
      then show ?thesis using Some Cons.IH by auto
    next
      case False
      show ?thesis
        using Some False Cons.IH
        by (auto simp: Let_def a[of "[x]" for x] a[of "[]" "[x]" for x] a[of "[x]" "[y]" for x y]
              EV_getFormatInfo_def split: option.splits prod.splits)
    qed
  qed
qed

lemma EV_validate_parts:
  assumes "EV_validate h this vs = Inr r"
  shows "\<exists>errs w1.
      EV_validateMissingVariables h this (mapKeys (EV_variableMap (exampleVariables this)))
        (EV_variableMap vs) (EV_variableMap (exampleVariables this)) [] = Inr errs
    \<and> EV_validateUnusedVariables h this (mapKeys (EV_variableMap vs))
        (mapKeys (EV_variableMap (exampleVariables this))) (EV_variableMap vs) [] = Inr w1
    \<and> errors r = errs
    \<and> warnings r = w1 @ EV_validateEmptyValues vs (EV_variableMap (exampleVariables this)) []
         @ fst (EV_validateValueFormats h vs (EV_variableMap (exampleVariables this)) [] [])
    \<and> info r = snd (EV_validateValueFormats h vs (EV_variableMap (exampleVariables this)) [] [])
    \<and> summary r = EV_createSummary this vs errs (warnings r) (exampleElapsed h)
    \<and> isValid r = (errs = [])"
proof -
  let ?em = "EV_variableMap (exampleVariables this)"
  let ?vm = "EV_variableMap vs"
  obtain errs where e: "EV_validateMissingVariables h this (mapKeys ?em) ?vm ?em [] = Inr errs"
    using assms by (auto simp: EV_validate_def EV_variableMap_def Let_def split: sum.splits)
  obtain w1 where w: "EV_validateUnusedVariables h this (mapKeys ?vm) (mapKeys ?em) ?vm [] = Inr w1"
    using assms e by (auto simp: EV_validate_def EV_variableMap_def Let_def split: sum.splits)
  have f: "EV_validateValueFormats h vs ?em (EV_validateEmptyValues vs ?em w1) []
      = (EV_validateEmptyValues vs ?em w1 @ fst (EV_validateValueFormats h vs ?em [] []),
         snd (EV_validateValueFormats h vs ?em [] []))"
    using EV_formats_append[of h vs ?em "EV_validateEmptyValues vs ?em w1" "[]"] by simp
  have r: "r = \<lparr>isValid = (length errs = 0), errors = errs,
        warnings = EV_validateEmptyValues vs ?em w1 @ fst (EV_validateValueFormats h vs ?em [] []),
        info = snd (EV_validateValueFormats h vs ?em [] []),
        summary = EV_createSummary this vs errs
          (EV_validateEmptyValues vs ?em w1 @ fst (EV_validateValueFormats h vs ?em [] []))
          (exampleElapsed h)\<rparr>"
    using assms e w f
    by (simp add: EV_validate_def EV_variableMap_def[symmetric] Let_def)
  show ?thesis
    using e w EV_empty_append[of vs ?em w1] by (intro exI[of _ errs] exI[of _ w1]) (simp add: r)
qed

text \<open>
  C6 (as amended). For every observed variable whose key the reference has, whose
  reference value is a placeholder by the example validator's own \<open>isPlaceholderValue\<close>
  (its nine patterns, which do not include \<open>todo\<close> and \<open>fixme\<close>) and whose observed
  value is not empty or white space only, the result of \<open>validate\<close> holds the Info note
  for that variable. Reference values that only the security analyzer's list classifies
  as placeholders are left out of the statement.
\<close>

theorem placeholder_info_for_nonempty_value:
  assumes "EV_validate h this vs = Inr r"
    and "variable \<in> set vs"
    and "mapGet (newMap (map (\<lambda>v. (key v, v)) (exampleVariables this))) (key variable) = Some exampleVar"
    and "EV_isPlaceholderValue (val exampleVar)"
    and "trim (val variable) \<noteq> []"
  shows "\<lparr>f_type = ''info'', f_variable = key variable,
          f_message = ''Variable '' @ quoted (key variable) @ '' uses placeholder in example: ''
            @ val exampleVar,
          f_lineNumber = Some (lineNumber variable), f_suggestion = None, f_severity = ''info''\<rparr>
          \<in> set (info r)"
proof -
  from EV_validate_parts[OF assms(1)]
  have i: "info r = snd (EV_validateValueFormats h vs (EV_variableMap (exampleVariables this)) [] [])"
    by blast
  from assms(3) have g: "mapGet (EV_variableMap (exampleVariables this)) (key variable) = Some exampleVar"
    by (simp add: EV_variableMap_def)
  from EV_formats_props[of h vs "EV_variableMap (exampleVariables this)"] assms(2,4,5) g
  show ?thesis unfolding i by blast
qed

text \<open>
  C9. In every result of \<open>ExampleValidator.validate\<close> the summary's \<open>unusedVariables\<close> is
  the number of warnings tagged \<open>unused_variable\<close>; the empty-value warnings are among
  them, one per record that is empty against the reference; and when no observed key is
  unused the field is exactly the number of such records (1 for one empty variable, see
  the witness).
\<close>

theorem unusedVariables_counts_tagged_warnings:
  assumes "EV_validate h this vs = Inr r"
  shows "unusedVariables (summary r)
           = length (filter (\<lambda>w. f_type w = ''unused_variable'') (warnings r))
       \<and> length (filter (emptyAgainstExample (EV_variableMap (exampleVariables this))) vs)
           \<le> unusedVariables (summary r)
       \<and> ((\<forall>v \<in> set vs. key v \<in> key ` set (exampleVariables this)) \<longrightarrow>
            unusedVariables (summary r)
              = length (filter (emptyAgainstExample (EV_variableMap (exampleVariables this))) vs))"
proof -
  let ?em = "EV_variableMap (exampleVariables this)"
  let ?vm = "EV_variableMap vs"
  let ?U = "\<lambda>w. f_type w = ''unused_variable''"
  from EV_validate_parts[OF assms] obtain errs w1 where
    w1: "EV_validateUnusedVariables h this (mapKeys ?vm) (mapKeys ?em) ?vm [] = Inr w1"
    and w: "warnings r = w1 @ EV_validateEmptyValues vs ?em [] @ fst (EV_validateValueFormats h vs ?em [] [])"
    and s: "summary r = EV_createSummary this vs errs (warnings r) (exampleElapsed h)"
    by blast
  have a: "unusedVariables (summary r) = length (filter ?U (warnings r))"
    by (simp add: s EV_createSummary_def)
  have e: "filter ?U (EV_validateEmptyValues vs ?em []) = EV_validateEmptyValues vs ?em []"
    using EV_empty_props[of vs ?em] by (simp add: filter_id_conv)
  have f: "filter ?U (fst (EV_validateValueFormats h vs ?em [] [])) = []"
    using EV_formats_props[of h vs ?em] by (auto simp: filter_empty_conv)
  have c: "length (filter ?U (warnings r))
      = length (filter ?U w1) + length (filter (emptyAgainstExample ?em) vs)"
    using EV_empty_props[of vs ?em] by (simp add: w e f)
  have n: "w1 = []" if "\<forall>v \<in> set vs. key v \<in> key ` set (exampleVariables this)"
  proof -
    have "\<forall>k \<in> set (mapKeys ?vm). k \<in> set (mapKeys ?em)"
      using that by (auto simp: EV_variableMap_def newMap_keys)
    from EV_unused_none[OF this, of h this ?vm "[]"] w1 show ?thesis by simp
  qed
  show ?thesis using a c n by auto
qed

lemma parseLines_records:
  "variables (parseLines ls n acc) = variables acc @ recordsOfLines (enumerate n ls)"
  by (induction ls arbitrary: n acc)
     (auto simp: Let_def lineKind_def recordsOfLines_def split: sum.splits
           dest: parseVariableLine_Inl parseVariableLine_Inr)

lemma distinct_filter_le1:
  "distinct (map f xs) \<Longrightarrow> length (filter (\<lambda>x. f x = k) xs) \<le> 1"
proof (induction xs)
  case Nil
  then show ?case by simp
next
  case (Cons x xs)
  show ?case
  proof (cases "f x = k")
    case True
    with Cons.prems have "k \<notin> f ` set xs" by auto
    then have "filter (\<lambda>x. f x = k) xs = []" by (auto simp: filter_empty_conv)
    with True show ?thesis by simp
  next
    case False
    with Cons show ?thesis by simp
  qed
qed

text \<open>
  C10 (as amended). The parser keeps one record per assignment line, in order, whether or
  not keys repeat. In a result of \<open>ExampleValidator.validate\<close> no error names a key
  that the observed list has (one occurrence makes the key present), and for a key that
  the reference lacks there is at most one warning tagged \<open>unused_variable\<close>, which
  carries the line number of the last record with that key.
\<close>

theorem duplicate_keys_one_unused_warning:
  "variables (parseContent content) = recordsOfLines (enumerate 1 (splitLines content))
   \<and> (EV_validate h this vs = Inr r \<longrightarrow>
        (\<forall>e \<in> set (errors r). f_variable e \<notin> key ` set vs)
      \<and> (\<forall>k. k \<notin> key ` set (exampleVariables this) \<longrightarrow>
            length (filter (\<lambda>w. f_type w = ''unused_variable'' \<and> f_variable w = k) (warnings r)) \<le> 1
          \<and> (\<forall>w \<in> set (warnings r). f_type w = ''unused_variable'' \<and> f_variable w = k \<longrightarrow>
                f_lineNumber w = Some (lineNumber (last (filter (\<lambda>v. key v = k) vs))))))"
proof (intro conjI impI)
  show "variables (parseContent content) = recordsOfLines (enumerate 1 (splitLines content))"
    by (simp only: parseContent_def parseLines_records) simp
next
  assume v: "EV_validate h this vs = Inr r"
  let ?em = "EV_variableMap (exampleVariables this)"
  let ?vm = "EV_variableMap vs"
  from EV_validate_parts[OF v] obtain errs w1 where
    m: "EV_validateMissingVariables h this (mapKeys ?em) ?vm ?em [] = Inr errs"
    and u: "EV_validateUnusedVariables h this (mapKeys ?vm) (mapKeys ?em) ?vm [] = Inr w1"
    and e: "errors r = errs"
    and w: "warnings r = w1 @ EV_validateEmptyValues vs ?em [] @ fst (EV_validateValueFormats h vs ?em [] [])"
    by blast
  from EV_missing_append[OF m] have "\<forall>e \<in> set errs. \<not> mapHas ?vm (f_variable e)" by auto
  then show "\<forall>e \<in> set (errors r). f_variable e \<notin> key ` set vs"
    by (auto simp: e EV_variableMap_def newMap_has)
  from EV_unused_append[OF u] have d: "distinct (map f_variable w1)"
    and l: "\<forall>w \<in> set w1. \<exists>v. mapGet ?vm (f_variable w) = Some v \<and> f_lineNumber w = Some (lineNumber v)"
    by (auto simp: EV_variableMap_def newMap_keys)
  show "\<forall>k. k \<notin> key ` set (exampleVariables this) \<longrightarrow>
            length (filter (\<lambda>w. f_type w = ''unused_variable'' \<and> f_variable w = k) (warnings r)) \<le> 1
          \<and> (\<forall>w \<in> set (warnings r). f_type w = ''unused_variable'' \<and> f_variable w = k \<longrightarrow>
                f_lineNumber w = Some (lineNumber (last (filter (\<lambda>v. key v = k) vs))))"
  proof (intro allI impI)
    fix k
    assume k: "k \<notin> key ` set (exampleVariables this)"
    let ?P = "\<lambda>w. f_type w = ''unused_variable'' \<and> f_variable w = k"
    have none: "mapGet ?em k = None"
      using k newMap_get_iff[of "map (\<lambda>v. (key v, v)) (exampleVariables this)" k]
      by (auto simp: EV_variableMap_def newMap_keys)
    have fe: "filter ?P (EV_validateEmptyValues vs ?em []) = []"
      using EV_empty_props[of vs ?em] none by (auto simp: filter_empty_conv)
    have ff: "filter ?P (fst (EV_validateValueFormats h vs ?em [] [])) = []"
      using EV_formats_props[of h vs ?em] by (auto simp: filter_empty_conv)
    have fw: "filter ?P (warnings r) = filter ?P w1" by (simp add: w fe ff)
    have "length (filter (\<lambda>w. f_variable w = k) w1) \<le> 1"
    proof -
      show ?thesis using d by (rule distinct_filter_le1)
    qed
    moreover have "length (filter ?P w1) \<le> length (filter (\<lambda>w. f_variable w = k) w1)"
    proof -
      have "filter ?P w1 = filter (\<lambda>w. f_type w = ''unused_variable'') (filter (\<lambda>w. f_variable w = k) w1)"
        by (simp add: conj_commute)
      then show ?thesis by (simp add: length_filter_le del: filter_filter)
    qed
    ultimately have le: "length (filter ?P (warnings r)) \<le> 1" unfolding fw by simp
    have ln: "\<forall>w \<in> set (warnings r). ?P w \<longrightarrow>
                f_lineNumber w = Some (lineNumber (last (filter (\<lambda>v. key v = k) vs)))"
    proof (intro ballI impI)
      fix w assume "w \<in> set (warnings r)" and p: "?P w"
      then have "w \<in> set (filter ?P (warnings r))" by simp
      then have "w \<in> set w1" unfolding fw by simp
      with l obtain v where g: "mapGet ?vm (f_variable w) = Some v"
        and n: "f_lineNumber w = Some (lineNumber v)" by blast
      from g p have "map_of (rev (map (\<lambda>v. (key v, v)) vs)) k = Some v"
        by (simp add: EV_variableMap_def newMap_get)
      from last_record_wins[OF this] n
      show "f_lineNumber w = Some (lineNumber (last (filter (\<lambda>v. key v = k) vs)))" by simp
    qed
    from le ln show "length (filter ?P (warnings r)) \<le> 1 \<and>
       (\<forall>w \<in> set (warnings r). ?P w \<longrightarrow>
                f_lineNumber w = Some (lineNumber (last (filter (\<lambda>v. key v = k) vs))))" by blast
  qed
qed

text \<open>
  C6 as stated fails for an empty or white-space-only observed value:
  \<open>validateValueFormats\<close> skips such a record before it comes to the placeholder note.
\<close>

theorem placeholder_info_counterexample:
  "EV_isPlaceholderValue ''<x>''
   \<and> EV_validate plainHost (exampleOf [plainVariable ''B'' ''<x>'' 1]) [plainVariable ''B'' [] 1]
       = Inr \<lparr>isValid = True, errors = [], warnings = [], info = [],
              summary = \<lparr>totalVariables = 1, requiredVariables = 1, missingVariables = 0,
                          unusedVariables = 0, securityIssues = 0, validationTime = 0\<rparr>\<rparr>
   \<and> EV_validate plainHost (exampleOf [plainVariable ''B'' ''<x>'' 1]) [plainVariable ''B'' ''  '' 1]
       = Inr \<lparr>isValid = True, errors = [], warnings = [], info = [],
              summary = \<lparr>totalVariables = 1, requiredVariables = 1, missingVariables = 0,
                          unusedVariables = 0, securityIssues = 0, validationTime = 0\<rparr>\<rparr>"
  by code_simp

theorem placeholder_info_for_nonempty_value_witness:
  "EV_validate plainHost (exampleOf [plainVariable ''B'' ''<x>'' 1]) [plainVariable ''B'' ''real'' 4]
     = Inr \<lparr>isValid = True, errors = [], warnings = [],
            info = [\<lparr>f_type = ''info'', f_variable = ''B'',
                     f_message = ''Variable '' @ quoted ''B'' @ '' uses placeholder in example: <x>'',
                     f_lineNumber = Some 4, f_suggestion = None, f_severity = ''info''\<rparr>],
            summary = \<lparr>totalVariables = 1, requiredVariables = 1, missingVariables = 0,
                        unusedVariables = 0, securityIssues = 0, validationTime = 0\<rparr>\<rparr>"
proof -
  let ?r = "\<lparr>isValid = True, errors = [], warnings = [],
            info = [\<lparr>f_type = ''info'', f_variable = ''B'',
                     f_message = ''Variable '' @ quoted ''B'' @ '' uses placeholder in example: <x>'',
                     f_lineNumber = Some 4, f_suggestion = None, f_severity = ''info''\<rparr>],
            summary = \<lparr>totalVariables = 1, requiredVariables = 1, missingVariables = 0,
                        unusedVariables = 0, securityIssues = 0, validationTime = 0\<rparr>\<rparr>"
  have v: "EV_validate plainHost (exampleOf [plainVariable ''B'' ''<x>'' 1])
             [plainVariable ''B'' ''real'' 4] = Inr ?r"
    by code_simp
  have "\<lparr>f_type = ''info'', f_variable = key (plainVariable ''B'' ''real'' 4),
          f_message = ''Variable '' @ quoted (key (plainVariable ''B'' ''real'' 4))
            @ '' uses placeholder in example: '' @ val (plainVariable ''B'' ''<x>'' 1),
          f_lineNumber = Some (lineNumber (plainVariable ''B'' ''real'' 4)), f_suggestion = None,
          f_severity = ''info''\<rparr> \<in> set (info ?r)"
    using placeholder_info_for_nonempty_value [OF v, of "plainVariable ''B'' ''real'' 4"
        "plainVariable ''B'' ''<x>'' 1"]
    by code_simp
  with v show ?thesis by simp
qed

theorem unusedVariables_counts_tagged_warnings_witness:
  "EV_validate plainHost (exampleOf [plainVariable ''A'' ''foo'' 1]) [plainVariable ''A'' [] 1]
     = Inr \<lparr>isValid = True, errors = [],
            warnings = [\<lparr>f_type = ''unused_variable'', f_variable = ''A'',
                     f_message = ''Variable '' @ quoted ''A'' @ '' is empty but has a value in example'',
                     f_lineNumber = Some 1,
                     f_suggestion = Some ''Consider setting a value. Example: foo'',
                     f_severity = ''warning''\<rparr>],
            info = [],
            summary = \<lparr>totalVariables = 1, requiredVariables = 1, missingVariables = 0,
                        unusedVariables = 1, securityIssues = 0, validationTime = 0\<rparr>\<rparr>"
proof -
  let ?r = "\<lparr>isValid = True, errors = [],
            warnings = [\<lparr>f_type = ''unused_variable'', f_variable = ''A'',
                     f_message = ''Variable '' @ quoted ''A'' @ '' is empty but has a value in example'',
                     f_lineNumber = Some 1,
                     f_suggestion = Some ''Consider setting a value. Example: foo'',
                     f_severity = ''warning''\<rparr>],
            info = [],
            summary = \<lparr>totalVariables = 1, requiredVariables = 1, missingVariables = 0,
                        unusedVariables = 1, securityIssues = 0, validationTime = 0\<rparr>\<rparr>"
  have v: "EV_validate plainHost (exampleOf [plainVariable ''A'' ''foo'' 1])
             [plainVariable ''A'' [] 1] = Inr ?r"
    by code_simp
  have "unusedVariables (summary ?r) = 1"
    using unusedVariables_counts_tagged_warnings [OF v] by code_simp
  with v show ?thesis by simp
qed

text \<open>
  C10 as stated fails when the key is in the reference: the empty-value check runs over
  the records, not over the map keys, and its warnings carry the tag \<open>unused_variable\<close>
  too, so a key defined twice with an empty value gets one such warning per occurrence.
\<close>

theorem duplicate_keys_counterexample:
  "variables (parseContent (''A='' @ [LF] @ ''A=''))
     = [plainVariable ''A'' [] 1, plainVariable ''A'' [] 2]
   \<and> EV_validate plainHost (exampleOf [plainVariable ''A'' ''foo'' 1])
         (variables (parseContent (''A='' @ [LF] @ ''A='')))
     = Inr \<lparr>isValid = True, errors = [],
            warnings = [\<lparr>f_type = ''unused_variable'', f_variable = ''A'',
                     f_message = ''Variable '' @ quoted ''A'' @ '' is empty but has a value in example'',
                     f_lineNumber = Some 1,
                     f_suggestion = Some ''Consider setting a value. Example: foo'',
                     f_severity = ''warning''\<rparr>,
                    \<lparr>f_type = ''unused_variable'', f_variable = ''A'',
                     f_message = ''Variable '' @ quoted ''A'' @ '' is empty but has a value in example'',
                     f_lineNumber = Some 2,
                     f_suggestion = Some ''Consider setting a value. Example: foo'',
                     f_severity = ''warning''\<rparr>],
            info = [],
            summary = \<lparr>totalVariables = 2, requiredVariables = 1, missingVariables = 0,
                        unusedVariables = 2, securityIssues = 0, validationTime = 0\<rparr>\<rparr>"
  by code_simp

theorem duplicate_keys_one_unused_warning_witness:
  "variables (parseContent (''A=1'' @ [LF] @ ''A=2''))
     = [plainVariable ''A'' ''1'' 1, plainVariable ''A'' ''2'' 2]
   \<and> EV_validate plainHost (exampleOf [plainVariable ''B'' ''x'' 1])
         [plainVariable ''A'' ''1'' 1, plainVariable ''A'' ''2'' 2]
     = Inr \<lparr>isValid = False,
            errors = [\<lparr>f_type = ''missing_required'', f_variable = ''B'',
                     f_message = ''Variable '' @ quoted ''B''
                       @ '' is present in example but missing from .env file'',
                     f_lineNumber = None, f_suggestion = Some ''B=x'', f_severity = ''error''\<rparr>],
            warnings = [\<lparr>f_type = ''unused_variable'', f_variable = ''A'',
                     f_message = ''Variable '' @ quoted ''A'' @ '' is not present in .env.example'',
                     f_lineNumber = Some 2,
                     f_suggestion =
                       Some ''Add this variable to .env.example or remove it if not needed'',
                     f_severity = ''warning''\<rparr>],
            info = [],
            summary = \<lparr>totalVariables = 2, requiredVariables = 1, missingVariables = 1,
                        unusedVariables = 1, securityIssues = 0, validationTime = 0\<rparr>\<rparr>"
proof -
  let ?vs = "[plainVariable ''A'' ''1'' 1, plainVariable ''A'' ''2'' 2]"
  let ?r = "\<lparr>isValid = False,
            errors = [\<lparr>f_type = ''missing_required'', f_variable = ''B'',
                     f_message = ''Variable '' @ quoted ''B''
                       @ '' is present in example but missing from .env file'',
                     f_lineNumber = None, f_suggestion = Some ''B=x'', f_severity = ''error''\<rparr>],
            warnings = [\<lparr>f_type = ''unused_variable'', f_variable = ''A'',
                     f_message = ''Variable '' @ quoted ''A'' @ '' is not present in .env.example'',
                     f_lineNumber = Some 2,
                     f_suggestion =
                       Some ''Add this variable to .env.example or remove it if not needed'',
                     f_severity = ''warning''\<rparr>],
            info = [],
            summary = \<lparr>totalVariables = 2, requiredVariables = 1, missingVariables = 1,
                        unusedVariables = 1, securityIssues = 0, validationTime = 0\<rparr>\<rparr>"
  have p: "variables (parseContent (''A=1'' @ [LF] @ ''A=2'')) = ?vs"
    by code_simp
  have v: "EV_validate plainHost (exampleOf [plainVariable ''B'' ''x'' 1]) ?vs = Inr ?r"
    by code_simp
  have k: "''A'' \<notin> key ` set (exampleVariables (exampleOf [plainVariable ''B'' ''x'' 1]))"
    by (simp add: exampleOf_def plainVariable_def)
  from duplicate_keys_one_unused_warning [of "''A=1'' @ [LF] @ ''A=2''" plainHost
      "exampleOf [plainVariable ''B'' ''x'' 1]" ?vs ?r] v k
  have "length (filter (\<lambda>w. f_type w = ''unused_variable'' \<and> f_variable w = ''A'') (warnings ?r)) \<le> 1"
    by blast
  with p v show ?thesis by simp
qed

theorem hardcoded_secret_findings_exclusive_witness:
  "SA_checkHardcodedSecrets (plainVariable ''API_KEY'' ''abcdef1234567890abcdef1234567890'' 1) [] []
     = ([], [\<lparr>f_type = ''security_risk'', f_variable = ''API_KEY'',
               f_message = ''Potential Hexadecimal secret detected in sensitive variable'',
               f_lineNumber = Some 1,
               f_suggestion = Some ''Ensure this secret is not committed to version control'',
               f_severity = ''warning''\<rparr>])
   \<and> SA_checkHardcodedSecrets (plainVariable ''PASSWORD'' ''admin'' 1) [] []
     = ([\<lparr>f_type = ''security_risk'', f_variable = ''PASSWORD'',
          f_message = ''Weak or default secret detected'', f_lineNumber = Some 1,
          f_suggestion = Some ''Use a strong, randomly generated secret'',
          f_severity = ''error''\<rparr>], [])"
proof -
  let ?w = "[\<lparr>f_type = ''security_risk'', f_variable = ''API_KEY'',
               f_message = ''Potential Hexadecimal secret detected in sensitive variable'',
               f_lineNumber = Some 1,
               f_suggestion = Some ''Ensure this secret is not committed to version control'',
               f_severity = ''warning''\<rparr>]"
  have a: "SA_checkHardcodedSecrets (plainVariable ''API_KEY'' ''abcdef1234567890abcdef1234567890'' 1)
             [] [] = ([], ?w)"
    by code_simp
  have "\<not> SA_isWeakSecret (val (plainVariable ''API_KEY'' ''abcdef1234567890abcdef1234567890'' 1))"
    using hardcoded_secret_findings_exclusive [OF a] by simp
  moreover have "SA_checkHardcodedSecrets (plainVariable ''PASSWORD'' ''admin'' 1) [] []
     = ([\<lparr>f_type = ''security_risk'', f_variable = ''PASSWORD'',
          f_message = ''Weak or default secret detected'', f_lineNumber = Some 1,
          f_suggestion = Some ''Use a strong, randomly generated secret'',
          f_severity = ''error''\<rparr>], [])"
    by code_simp
  ultimately show ?thesis using a by simp
qed

section \<open>Properties of the schema validator and of the orchestrator\<close>

lemma dedupe_Nil_iff: "dedupe seen fs = [] \<longleftrightarrow>
    (\<forall>f \<in> set fs. f_type f @ ''-'' @ f_variable f @ ''-'' @ f_message f \<in> set seen)"
  by (induction seen fs rule: dedupe.induct) (auto simp: Let_def)

lemma dedupe_empty: "dedupe [] fs = [] \<longleftrightarrow> fs = []"
  by (cases fs) (simp_all add: Let_def)

lemma SV_validate_isValid: "SV_validate h this vs = Inr r \<Longrightarrow> isValid r = (errors r = [])"
  by (auto simp: SV_validate_def Let_def split: sum.splits prod.splits)

lemma EV_validate_isValid: "EV_validate h this vs = Inr r \<Longrightarrow> isValid r = (errors r = [])"
  by (auto simp: EV_validate_def Let_def split: sum.splits prod.splits)

lemma EG_validateWithSchema_isValid:
  "EG_validateWithSchema h config vs = Inr r \<Longrightarrow> isValid r = (errors r = [])"
  by (auto simp: EG_validateWithSchema_def split: if_splits sum.splits dest: SV_validate_isValid)

lemma EG_validateWithExample_isValid:
  "EG_validateWithExample h config vs = Inr r \<Longrightarrow> isValid r = (errors r = [])"
  by (auto simp: EG_validateWithExample_def split: if_splits sum.splits list.splits
      dest: EV_validate_isValid)

lemma EG_validateWithBoth_isValid:
  assumes "EG_validateWithBoth h config vs = Inr r"
  shows "isValid r = (errors r = [])"
proof -
  from assms obtain s e where s: "EG_validateWithSchema h config vs = Inr s"
    and e: "EG_validateWithExample h config vs = Inr e"
    and r: "r = \<lparr>isValid = (isValid s \<and> isValid e),
                    errors = EG_deduplicateErrors (errors s @ errors e),
                    warnings = EG_deduplicateWarnings (warnings s @ warnings e),
                    info = info s @ info e,
                    summary = EG_mergeSummaries (summary s) (summary e)\<rparr>"
    by (auto simp: EG_validateWithBoth_def split: sum.splits)
  from EG_validateWithSchema_isValid[OF s] EG_validateWithExample_isValid[OF e]
  show ?thesis by (simp add: r EG_deduplicateErrors_def dedupe_empty)
qed

lemma EG_validateBody_isValid:
  "EG_validateBody h config = Inr r \<Longrightarrow> isValid r = (errors r = [])"
  by (auto simp: EG_validateBody_def Let_def EG_createErrorResult_def
      split: sum.splits if_splits prod.splits)

text \<open>
  C1. Every result of \<open>SchemaValidator.validate\<close>, of \<open>ExampleValidator.validate\<close>, of the
  merge of both modes, and of the orchestrator's \<open>validate\<close> (which merges the security
  findings in, or builds an error result) has \<open>isValid\<close> true exactly when its list of
  errors is empty.
\<close>

theorem isValid_iff_no_errors:
  "(SV_validate h sv vs = Inr r1 \<longrightarrow> isValid r1 = (errors r1 = []))
   \<and> (EV_validate h ev vs = Inr r2 \<longrightarrow> isValid r2 = (errors r2 = []))
   \<and> (EG_validateWithBoth h config vs = Inr r3 \<longrightarrow> isValid r3 = (errors r3 = []))
   \<and> isValid (EG_validate h config) = (errors (EG_validate h config) = [])"
proof -
  have "isValid (EG_validate h config) = (errors (EG_validate h config) = [])"
  proof (cases "EG_validateBody h config")
    case (Inl m)
    then show ?thesis by (simp add: EG_validate_def EG_createErrorResult_def)
  next
    case (Inr r)
    with EG_validateBody_isValid[OF Inr] show ?thesis by (simp add: EG_validate_def)
  qed
  then show ?thesis
    using SV_validate_isValid EV_validate_isValid EG_validateWithBoth_isValid by blast
qed

text \<open>
  C2. When parsing the target file yields at least one parse error, the orchestrator's
  result is invalid and holds exactly one \<open>invalid_format\<close> error per parse error, in
  order, with no warnings, no info and a summary whose counts are zero. The result is a
  function of the parse errors and the elapsed time only: no schema, example or security
  pass contributes.
\<close>

theorem parse_errors_abandon_validation:
  assumes "parseFile h (if truthy (envFile config) then the (envFile config) else ''.env'') = Inr parsed"
    and "parseErrors parsed \<noteq> []"
  shows "EG_validate h config =
           \<lparr>isValid = False,
            errors = map (\<lambda>e. \<lparr>f_type = ''invalid_format'', f_variable = [],
                                f_message = pe_message e, f_lineNumber = Some (pe_lineNumber e),
                                f_suggestion = None, f_severity = ''error''\<rparr>) (parseErrors parsed),
            warnings = [], info = [],
            summary = \<lparr>totalVariables = 0, requiredVariables = 0, missingVariables = 0,
                        unusedVariables = 0, securityIssues = 0,
                        validationTime = totalElapsed h\<rparr>\<rparr>
       \<and> length (errors (EG_validate h config)) = length (parseErrors parsed)
       \<and> \<not> isValid (EG_validate h config)"
  using assms
  by (simp add: EG_validate_def EG_validateBody_def Let_def EG_createErrorResult_def)

lemma SV_required_types:
  "filter (\<lambda>e. f_type e = ''invalid_format'' \<and> Q e) (SV_validateRequiredVariables this ks vm errs)
     = filter (\<lambda>e. f_type e = ''invalid_format'' \<and> Q e) errs"
  by (induction ks arbitrary: errs) (auto split: option.splits)

lemma SV_type_variable:
  "\<exists>new. SV_validateVariableType h v s errs = errs @ new
     \<and> (\<forall>e \<in> set new. f_variable e = key v \<and> f_lineNumber e = Some (lineNumber v))"
  by (auto simp: SV_validateVariableType_def Let_def split: prod.splits)

lemma SV_pattern_variable:
  "SV_validateVariablePattern h v s errs = Inr errs'
   \<Longrightarrow> \<exists>new. errs' = errs @ new
         \<and> (\<forall>e \<in> set new. f_variable e = key v \<and> f_lineNumber e = Some (lineNumber v))"
  by (auto simp: SV_validateVariablePattern_def split: if_splits sum.splits)

lemma SV_values_other:
  "SV_validateVariableValues h this vs errs warns = Inr (errs', warns')
   \<Longrightarrow> \<forall>v \<in> set vs. \<not> (key v = k \<and> lineNumber v = n)
   \<Longrightarrow> filter (\<lambda>e. P e \<and> f_variable e = k \<and> f_lineNumber e = Some n) errs'
       = filter (\<lambda>e. P e \<and> f_variable e = k \<and> f_lineNumber e = Some n) errs"
proof (induction vs arbitrary: errs warns)
  case Nil
  then show ?case by simp
next
  case (Cons v vs)
  from Cons.prems(2) have kv: "\<not> (key v = k \<and> lineNumber v = n)"
    and rest: "\<forall>v \<in> set vs. \<not> (key v = k \<and> lineNumber v = n)" by simp_all
  show ?case
  proof (cases "schemaLookup this (key v)")
    case None
    with Cons.prems(1) have "SV_validateVariableValues h this vs errs warns = Inr (errs', warns')"
      by simp
    from Cons.IH[OF this rest] show ?thesis .
  next
    case (Some s)
    from Cons.prems(1) Some obtain e1 w1 where
      step: "SV_validateVariableValues h this vs e1 w1 = Inr (errs', warns')"
      and e1: "\<exists>new. e1 = errs @ new
                \<and> (\<forall>e \<in> set new. f_variable e = key v \<and> f_lineNumber e = Some (lineNumber v))"
    proof (cases "\<not> allowEmpty s \<and> trim (val v) = []")
      case True
      with Cons.prems(1) Some that show ?thesis
        by (auto simp: Let_def)
    next
      case False
      with Cons.prems(1) Some obtain e2 where
        p: "SV_validateVariablePattern h v s (SV_validateVariableType h v s errs) = Inr e2"
        by (auto simp: Let_def split: sum.splits)
      from SV_pattern_variable[OF p] SV_type_variable[of h v s errs]
      have "\<exists>new. e2 = errs @ new
              \<and> (\<forall>e \<in> set new. f_variable e = key v \<and> f_lineNumber e = Some (lineNumber v))"
        by (metis append.assoc set_append Un_iff)
      with False Cons.prems(1) Some p that show ?thesis
        by (auto simp: Let_def)
    qed
    from e1 kv have "filter (\<lambda>e. P e \<and> f_variable e = k \<and> f_lineNumber e = Some n) e1
        = filter (\<lambda>e. P e \<and> f_variable e = k \<and> f_lineNumber e = Some n) errs"
      by (auto simp: filter_empty_conv)
    with Cons.IH[OF step rest] show ?thesis by simp
  qed
qed

lemma SV_values_empty_step:
  assumes "schemaLookup this (key v) = Some s" "\<not> allowEmpty s" "trim (val v) = []"
  shows "\<exists>warns1. (\<forall>errs' warns'.
            SV_validateVariableValues h this (v # vs) errs warns = Inr (errs', warns')
              \<longleftrightarrow> SV_validateVariableValues h this vs (errs @ [cannotBeEmpty v s]) warns1
                    = Inr (errs', warns'))
          \<and> SV_validateVariableValues h this [v] errs warns
              = Inr (errs @ [cannotBeEmpty v s], warns1)"
  using assms by (simp add: Let_def cannotBeEmpty_def)

lemma SV_values_unique:
  "SV_validateVariableValues h this vs errs warns = Inr (errs', warns')
   \<Longrightarrow> filter (\<lambda>w. key w = key v \<and> lineNumber w = lineNumber v) vs = [v]
   \<Longrightarrow> schemaLookup this (key v) = Some s \<Longrightarrow> \<not> allowEmpty s \<Longrightarrow> trim (val v) = []
   \<Longrightarrow> filter (\<lambda>e. f_type e = ''invalid_format'' \<and> f_variable e = key v
                    \<and> f_lineNumber e = Some (lineNumber v)) errs'
       = filter (\<lambda>e. f_type e = ''invalid_format'' \<and> f_variable e = key v
                    \<and> f_lineNumber e = Some (lineNumber v)) errs @ [cannotBeEmpty v s]"
proof (induction vs arbitrary: errs warns)
  case Nil
  then show ?case by simp
next
  case (Cons x xs)
  let ?P = "\<lambda>e. f_type e = ''invalid_format'' \<and> f_variable e = key v
                    \<and> f_lineNumber e = Some (lineNumber v)"
  show ?case
  proof (cases "key x = key v \<and> lineNumber x = lineNumber v")
    case True
    with Cons.prems(2) have xv: "x = v"
      and rest: "filter (\<lambda>w. key w = key v \<and> lineNumber w = lineNumber v) xs = []" by simp_all
    from rest have other: "\<forall>w \<in> set xs. \<not> (key w = key v \<and> lineNumber w = lineNumber v)"
      by (simp add: filter_empty_conv)
    from SV_values_empty_step[OF Cons.prems(3,4,5), of h xs errs warns] Cons.prems(1) xv
    obtain warns1 where
      "SV_validateVariableValues h this xs (errs @ [cannotBeEmpty v s]) warns1 = Inr (errs', warns')"
      by blast
    from SV_values_other[OF this other, of "\<lambda>e. f_type e = ''invalid_format''"]
    show ?thesis by (simp add: cannotBeEmpty_def)
  next
    case False
    with Cons.prems(2)
    have rest: "filter (\<lambda>w. key w = key v \<and> lineNumber w = lineNumber v) xs = [v]" by simp
    from SV_values_other[of h this "[x]" errs warns _ _ "key v" "lineNumber v"
        "\<lambda>e. f_type e = ''invalid_format''"] False
    have one: "\<And>e1 w1. SV_validateVariableValues h this [x] errs warns = Inr (e1, w1)
        \<Longrightarrow> filter ?P e1 = filter ?P errs" by simp
    show ?thesis
    proof (cases "SV_validateVariableValues h this [x] errs warns")
      case (Inl e)
      with Cons.prems(1) show ?thesis
        by (auto simp: Let_def split: option.splits sum.splits if_splits)
    next
      case (Inr p)
      obtain e1 w1 where p: "p = (e1, w1)" by (cases p)
      from Inr p Cons.prems(1)
      have "SV_validateVariableValues h this xs e1 w1 = Inr (errs', warns')"
        by (auto simp: Let_def split: option.splits sum.splits if_splits)
      from Cons.IH[OF this rest Cons.prems(3,4,5)] one[OF Inr[unfolded p]]
      show ?thesis by simp
    qed
  qed
qed

lemma index_filter: 
  "concat (map (\<lambda>(i, l). if P l then [i] else []) xs) = map fst (filter (\<lambda>(i, l). P l) xs)"
  by (induction xs) auto

lemma parseContent_lines_distinct: "distinct (map lineNumber (variables (parseContent content)))"
proof -
  have "map lineNumber (variables (parseContent content))
      = map fst (filter (\<lambda>(i, l). lineKind l = Assignment) (enumerate 1 (splitLines content)))"
    by (simp only: parseContent_def parseLines_variables index_filter) simp
  moreover have "distinct (map fst (enumerate 1 (splitLines content)))"
    by (simp add: map_fst_enumerate)
  ultimately show ?thesis by (simp add: distinct_map_filter)
qed

lemma distinct_lines_only_record:
  "distinct (map lineNumber vs) \<Longrightarrow> v \<in> set vs
   \<Longrightarrow> filter (\<lambda>w. key w = key v \<and> lineNumber w = lineNumber v) vs = [v]"
proof (induction vs)
  case Nil
  then show ?case by simp
next
  case (Cons x xs)
  show ?case
  proof (cases "x = v")
    case True
    with Cons.prems(1) have "lineNumber v \<notin> lineNumber ` set xs" by simp
    then have "\<forall>w \<in> set xs. lineNumber w \<noteq> lineNumber v" by (metis imageI)
    then have "filter (\<lambda>w. key w = key v \<and> lineNumber w = lineNumber v) xs = []"
      by (simp add: filter_empty_conv)
    with True show ?thesis by simp
  next
    case False
    with Cons.prems have v: "v \<in> set xs" and d: "distinct (map lineNumber xs)"
      and "lineNumber x \<notin> lineNumber ` set xs" by auto
    then have "lineNumber x \<noteq> lineNumber v" by auto
    with Cons.IH[OF d v] show ?thesis by simp
  qed
qed

lemma pushCustom_types:
  "pushCustom rule v (errs, warns, infos) = (errs', warns', infos')
   \<Longrightarrow> \<exists>new. errs' = errs @ new \<and> (\<forall>e \<in> set new. f_type e = ''custom'')"
  by (auto simp: pushCustom_def split: if_splits)

lemma applyRule_types:
  assumes "applyRule rule v (errs, warns, infos) = Inr (errs', warns', infos')"
  shows "\<exists>new. errs' = errs @ new \<and> (\<forall>e \<in> set new. f_type e = ''custom'')"
proof -
  have "\<exists>st1. (st1 = (errs, warns, infos) \<or> pushCustom rule v (errs, warns, infos) = st1)
      \<and> (st1 = (errs', warns', infos') \<or> pushCustom rule v st1 = (errs', warns', infos'))"
    using assms by (auto simp: applyRule_def split: option.splits sum.splits if_splits)
  then obtain st1 where
    a: "st1 = (errs, warns, infos) \<or> pushCustom rule v (errs, warns, infos) = st1"
    and b: "st1 = (errs', warns', infos') \<or> pushCustom rule v st1 = (errs', warns', infos')"
    by blast
  obtain e1 w1 i1 where st1: "st1 = (e1, w1, i1)" by (cases st1)
  from a st1 pushCustom_types[of rule v errs warns infos e1 w1 i1]
  have 1: "\<exists>new. e1 = errs @ new \<and> (\<forall>e \<in> set new. f_type e = ''custom'')" by auto
  from b st1 pushCustom_types[of rule v e1 w1 i1 errs' warns' infos']
  have 2: "\<exists>new. errs' = e1 @ new \<and> (\<forall>e \<in> set new. f_type e = ''custom'')" by auto
  from 1 2 show ?thesis by (metis append.assoc set_append Un_iff)
qed

lemma applyRuleToAll_types:
  "applyRuleToAll rule vs (errs, warns, infos) = Inr (errs', warns', infos')
   \<Longrightarrow> \<exists>new. errs' = errs @ new \<and> (\<forall>e \<in> set new. f_type e = ''custom'')"
proof (induction vs arbitrary: errs warns infos)
  case Nil
  then show ?case by simp
next
  case (Cons v vs)
  from Cons.prems obtain e1 w1 i1 where
    s: "applyRule rule v (errs, warns, infos) = Inr (e1, w1, i1)"
    and r: "applyRuleToAll rule vs (e1, w1, i1) = Inr (errs', warns', infos')"
    by (auto split: sum.splits)
  from applyRule_types[OF s] Cons.IH[OF r] show ?case
    by (metis append.assoc set_append Un_iff)
qed

lemma applyRules_types:
  "applyRules rs vs (errs, warns, infos) = Inr (errs', warns', infos')
   \<Longrightarrow> \<exists>new. errs' = errs @ new \<and> (\<forall>e \<in> set new. f_type e = ''custom'')"
proof (induction rs arbitrary: errs warns infos)
  case Nil
  then show ?case by simp
next
  case (Cons rule rs)
  from Cons.prems obtain e1 w1 i1 where
    s: "applyRuleToAll rule vs (errs, warns, infos) = Inr (e1, w1, i1)"
    and r: "applyRules rs vs (e1, w1, i1) = Inr (errs', warns', infos')"
    by (auto split: sum.splits)
  from applyRuleToAll_types[OF s] Cons.IH[OF r] show ?case
    by (metis append.assoc set_append Un_iff)
qed

lemma SV_custom_types:
  assumes "SV_applyCustomRules this vs (errs, warns, infos) = Inr (errs', warns', infos')"
  shows "filter (\<lambda>e. f_type e = ''invalid_format'' \<and> Q e) errs'
           = filter (\<lambda>e. f_type e = ''invalid_format'' \<and> Q e) errs"
proof -
  have "\<exists>new. errs' = errs @ new \<and> (\<forall>e \<in> set new. f_type e = ''custom'')"
    using assms applyRules_types
    by (cases "rules (schema this)") (auto simp: SV_applyCustomRules_def)
  then show ?thesis by (auto simp: filter_empty_conv)
qed

text \<open>
  C5. For an observed variable that has a schema entry not allowing empty values and
  whose value trims to the empty string, the per-variable step of
  \<open>validateVariableValues\<close> pushes exactly the \<open>cannot be empty\<close> error onto the errors
  and nothing else. In a result of \<open>validate\<close>, when no other record has the same key on
  the same line, that error is the only \<open>invalid_format\<close> error for the variable, so the
  run holds no type-check or pattern-check finding for it; this is so for every record
  of a parsed file, whose line numbers are distinct.
\<close>

theorem empty_value_single_error:
  assumes "map_of (schema_variables (schema this)) (key variable) = Some s"
    and "\<not> allowEmpty s"
    and "trim (val variable) = []"
  shows "(\<exists>warns1. SV_validateVariableValues h this [variable] errs warns
             = Inr (errs @ [cannotBeEmpty variable s], warns1))
       \<and> (SV_validate h this vs = Inr r \<longrightarrow>
            filter (\<lambda>w. key w = key variable \<and> lineNumber w = lineNumber variable) vs = [variable] \<longrightarrow>
            filter (\<lambda>e. f_type e = ''invalid_format'' \<and> f_variable e = key variable
                        \<and> f_lineNumber e = Some (lineNumber variable)) (errors r)
              = [cannotBeEmpty variable s])
       \<and> (SV_validate h this (variables (parseContent content)) = Inr r' \<longrightarrow>
            variable \<in> set (variables (parseContent content)) \<longrightarrow>
            filter (\<lambda>e. f_type e = ''invalid_format'' \<and> f_variable e = key variable
                        \<and> f_lineNumber e = Some (lineNumber variable)) (errors r')
              = [cannotBeEmpty variable s])"
proof -
  let ?P = "\<lambda>e. f_type e = ''invalid_format'' \<and> f_variable e = key variable
                        \<and> f_lineNumber e = Some (lineNumber variable)"
  from assms(1) have l: "schemaLookup this (key variable) = Some s"
    by (simp add: schemaLookup_def)
  from SV_values_empty_step[OF l assms(2,3), of h "[]" errs warns]
  have step: "\<exists>warns1. SV_validateVariableValues h this [variable] errs warns
             = Inr (errs @ [cannotBeEmpty variable s], warns1)" by blast
  have run: "filter ?P (errors r) = [cannotBeEmpty variable s]"
    if v: "SV_validate h this vs = Inr r"
      and u: "filter (\<lambda>w. key w = key variable \<and> lineNumber w = lineNumber variable) vs = [variable]"
    for vs r
  proof -
    let ?vm = "newMap (map (\<lambda>v. (key v, v)) vs)"
    let ?e1 = "SV_validateRequiredVariables this (map fst (schema_variables (schema this))) ?vm []"
    from v obtain w1 e2 w2 e3 w3 i3 where
      vv: "SV_validateVariableValues h this vs ?e1 w1 = Inr (e2, w2)"
      and cr: "SV_applyCustomRules this vs (e2, w2, []) = Inr (e3, w3, i3)"
      and r: "errors r = e3"
      by (auto simp: SV_validate_def Let_def split: sum.splits prod.splits)
    have "filter ?P ?e1 = []"
      using SV_required_types[of "\<lambda>e. f_variable e = key variable
                        \<and> f_lineNumber e = Some (lineNumber variable)" this _ ?vm "[]"] by simp
    with SV_values_unique[OF vv u l assms(2,3)] have "filter ?P e2 = [cannotBeEmpty variable s]"
      by simp
    with SV_custom_types[OF cr, of "\<lambda>e. f_variable e = key variable
                        \<and> f_lineNumber e = Some (lineNumber variable)"]
    show ?thesis by (simp add: r)
  qed
  have parsed: "filter ?P (errors r') = [cannotBeEmpty variable s]"
    if v: "SV_validate h this (variables (parseContent content)) = Inr r'"
      and m: "variable \<in> set (variables (parseContent content))"
    using run[OF v distinct_lines_only_record[OF parseContent_lines_distinct m]] .
  from step run parsed show ?thesis by blast
qed

theorem isValid_iff_no_errors_witness:
  "SV_validate demoHost \<lparr>schema = portSchema\<rparr> [plainVariable ''PORT'' [] 1]
     = Inr \<lparr>isValid = False, errors = [portEmptyError], warnings = [], info = [],
            summary = portSummary 0\<rparr>
   \<and> EV_validate demoHost (exampleOf [plainVariable ''PORT'' ''3000'' 1]) [plainVariable ''PORT'' [] 1]
     = Inr \<lparr>isValid = True, errors = [], warnings = [portEmptyWarning], info = [],
            summary = portSummary 1\<rparr>
   \<and> EG_validateWithBoth demoHost bothConfig [plainVariable ''PORT'' [] 1]
     = Inr \<lparr>isValid = False, errors = [portEmptyError], warnings = [portEmptyWarning], info = [],
            summary = portSummary 1\<rparr>
   \<and> EG_validate demoHost bothConfig
     = \<lparr>isValid = False, errors = [portEmptyError], warnings = [portEmptyWarning], info = [],
        summary = portSummary 1\<rparr>"
proof -
  let ?vs = "[plainVariable ''PORT'' [] 1]"
  let ?r1 = "\<lparr>isValid = False, errors = [portEmptyError], warnings = [], info = [],
            summary = portSummary 0\<rparr>"
  let ?r2 = "\<lparr>isValid = True, errors = [], warnings = [portEmptyWarning], info = [],
            summary = portSummary 1\<rparr>"
  let ?r3 = "\<lparr>isValid = False, errors = [portEmptyError], warnings = [portEmptyWarning], info = [],
            summary = portSummary 1\<rparr>"
  have a: "SV_validate demoHost \<lparr>schema = portSchema\<rparr> ?vs = Inr ?r1" by code_simp
  have b: "EV_validate demoHost (exampleOf [plainVariable ''PORT'' ''3000'' 1]) ?vs = Inr ?r2"
    by code_simp
  have c: "EG_validateWithBoth demoHost bothConfig ?vs = Inr ?r3" by code_simp
  have d: "EG_validate demoHost bothConfig = ?r3" by code_simp
  from isValid_iff_no_errors [of demoHost "\<lparr>schema = portSchema\<rparr>" ?vs ?r1
      "exampleOf [plainVariable ''PORT'' ''3000'' 1]" ?r2 bothConfig ?r3] a b c d
  have "isValid ?r1 = (errors ?r1 = []) \<and> isValid ?r2 = (errors ?r2 = [])
      \<and> isValid ?r3 = (errors ?r3 = [])"
    by simp
  with a b c d show ?thesis by simp
qed

theorem parse_errors_abandon_validation_witness:
  "EG_validate (fileHost [(''.env'', ''A=1'' @ [LF] @ ''bad line'')]) defaultConfig
     = \<lparr>isValid = False,
        errors = [\<lparr>f_type = ''invalid_format'', f_variable = [],
                  f_message = ''Invalid variable assignment format'', f_lineNumber = Some 2,
                  f_suggestion = None, f_severity = ''error''\<rparr>],
        warnings = [], info = [],
        summary = \<lparr>totalVariables = 0, requiredVariables = 0, missingVariables = 0,
                    unusedVariables = 0, securityIssues = 0, validationTime = 0\<rparr>\<rparr>"
proof -
  let ?h = "fileHost [(''.env'', ''A=1'' @ [LF] @ ''bad line'')]"
  let ?p = "\<lparr>variables = [plainVariable ''A'' ''1'' 1], comments = [], emptyLines = [],
             parseErrors = [\<lparr>pe_lineNumber = 2, pe_message = ''Invalid variable assignment format'',
                             pe_line = ''bad line''\<rparr>]\<rparr>"
  have a: "parseFile ?h (if truthy (envFile defaultConfig) then the (envFile defaultConfig) else ''.env'')
             = Inr ?p"
    by code_simp
  have b: "parseErrors ?p \<noteq> []" by simp
  from parse_errors_abandon_validation [OF a b] show ?thesis
    by (simp add: fileHost_def plainHost_def)
qed

theorem empty_value_single_error_witness:
  "SV_validate demoHost \<lparr>schema = portSchema\<rparr> [plainVariable ''PORT'' [] 1]
     = Inr \<lparr>isValid = False, errors = [portEmptyError], warnings = [], info = [],
            summary = portSummary 0\<rparr>
   \<and> cannotBeEmpty (plainVariable ''PORT'' [] 1) (snd (hd (schema_variables portSchema)))
       = portEmptyError"
proof -
  let ?vs = "[plainVariable ''PORT'' [] 1]"
  let ?r1 = "\<lparr>isValid = False, errors = [portEmptyError], warnings = [], info = [],
            summary = portSummary 0\<rparr>"
  let ?s = "snd (hd (schema_variables portSchema))"
  have a: "SV_validate demoHost \<lparr>schema = portSchema\<rparr> ?vs = Inr ?r1" by code_simp
  have l: "map_of (schema_variables (schema \<lparr>schema = portSchema\<rparr>)) (key (plainVariable ''PORT'' [] 1))
             = Some ?s" by code_simp
  have e: "\<not> allowEmpty ?s" by code_simp
  have t: "trim (val (plainVariable ''PORT'' [] 1)) = []" by code_simp
  have u: "filter (\<lambda>w. key w = key (plainVariable ''PORT'' [] 1)
                     \<and> lineNumber w = lineNumber (plainVariable ''PORT'' [] 1)) ?vs = ?vs"
    by code_simp
  from empty_value_single_error [OF l e t, of demoHost "[]" "[]" ?vs ?r1] a u
  have "filter (\<lambda>e. f_type e = ''invalid_format'' \<and> f_variable e = key (plainVariable ''PORT'' [] 1)
                    \<and> f_lineNumber e = Some (lineNumber (plainVariable ''PORT'' [] 1)))
          (errors ?r1) = [cannotBeEmpty (plainVariable ''PORT'' [] 1) ?s]"
    by blast
  then have "cannotBeEmpty (plainVariable ''PORT'' [] 1) ?s = portEmptyError"
    by (simp add: portEmptyError_def plainVariable_def split: if_splits)
  with a show ?thesis by simp
qed

end
